theory Spec2Isabelle
  imports Complex_Main "HOL-Library.Word" "HOL-Library.AList"
begin

unbundle bit_operations_syntax

section \<open>Conventions\<close>

text \<open>
  The extension is JavaScript running in one page. The embedding makes its implicit inputs
  explicit:
  \<^item> \<open>Date.now()\<close> is a parameter \<open>now\<close> (milliseconds, an \<open>int\<close>);
  \<^item> \<open>Math.random()\<close> is a parameter (a \<open>rat\<close>, in \<open>[0, 1)\<close> in the browser);
  \<^item> a value that may be \<open>null\<close> or \<open>undefined\<close> is an \<open>option\<close>;
  \<^item> a JavaScript \<open>Set\<close> is the list of its elements in insertion order, a \<open>Map\<close>
    keyed by strings is a partial function;
  \<^item> the text the engines read in the page is taken in Latin-1: a \<open>string\<close> is a list of
    \<open>char\<close>, code units below 256. The duplicate detector is given a second time on
    JavaScript strings in full (UTF-16 code units).
\<close>

section \<open>SafetyLimits (surfers/utilities, engagement helpers)\<close>

record limits =
  commentsPerHour :: int
  commentsPerDay :: int
  likesPerHour :: int
  likesPerDay :: int

record counters =
  hourlyComments :: int
  dailyComments :: int
  hourlyLikes :: int
  dailyLikes :: int
  lastHourReset :: int
  lastDayReset :: int

text \<open>The constructor's \<open>this.limits\<close>.\<close>

definition the_limits :: limits where
  "the_limits = \<lparr> commentsPerHour = 10, commentsPerDay = 50, likesPerHour = 30, likesPerDay = 200 \<rparr>"

text \<open>The constructor's \<open>this.counters\<close>, created at clock reading \<open>now\<close>.\<close>

definition initial_counters :: "int \<Rightarrow> counters" where
  "initial_counters now =
     \<lparr> hourlyComments = 0, dailyComments = 0, hourlyLikes = 0, dailyLikes = 0,
       lastHourReset = now, lastDayReset = now \<rparr>"

definition hourMs :: int where
  "hourMs = 60 * 60 * 1000"

definition dayMs :: int where
  "dayMs = 24 * hourMs"

text \<open>\<open>checkResets()\<close>: the hourly block, then the daily block.\<close>

definition resetHourly :: "int \<Rightarrow> counters \<Rightarrow> counters" where
  "resetHourly now c =
     (if now - lastHourReset c > hourMs
      then c\<lparr> hourlyComments := 0, hourlyLikes := 0, lastHourReset := now \<rparr>
      else c)"

definition resetDaily :: "int \<Rightarrow> counters \<Rightarrow> counters" where
  "resetDaily now c =
     (if now - lastDayReset c > dayMs
      then c\<lparr> dailyComments := 0, dailyLikes := 0, lastDayReset := now \<rparr>
      else c)"

definition checkResets :: "int \<Rightarrow> counters \<Rightarrow> counters" where
  "checkResets now c = resetDaily now (resetHourly now c)"

text \<open>
  \<open>canComment()\<close> and \<open>canLike()\<close> mutate the counters (through \<open>checkResets\<close>) and
  return a boolean: the model returns both.
\<close>

definition canComment :: "int \<Rightarrow> counters \<Rightarrow> bool \<times> counters" where
  "canComment now c =
     (let c' = checkResets now c
      in (hourlyComments c' < commentsPerHour the_limits \<and> dailyComments c' < commentsPerDay the_limits, c'))"

definition canLike :: "int \<Rightarrow> counters \<Rightarrow> bool \<times> counters" where
  "canLike now c =
     (let c' = checkResets now c
      in (hourlyLikes c' < likesPerHour the_limits \<and> dailyLikes c' < likesPerDay the_limits, c'))"

definition recordComment :: "counters \<Rightarrow> counters" where
  "recordComment c = c\<lparr> hourlyComments := hourlyComments c + 1, dailyComments := dailyComments c + 1 \<rparr>"

definition recordLike :: "counters \<Rightarrow> counters" where
  "recordLike c = c\<lparr> hourlyLikes := hourlyLikes c + 1, dailyLikes := dailyLikes c + 1 \<rparr>"

section \<open>JavaScript strings\<close>

text \<open>
  The characters \<open>\s\<close> matches and \<open>trim()\<close> strips, among the code units below 256:
  tab, line feed, vertical tab, form feed, carriage return, space, no-break space.
\<close>

definition whiteSpaceChars :: string where
  "whiteSpaceChars = [CHR 0x09, CHR 0x0A, CHR 0x0B, CHR 0x0C, CHR 0x0D, CHR 0x20, CHR 0xA0]"

definition isWhiteSpace :: "char \<Rightarrow> bool" where
  "isWhiteSpace c \<longleftrightarrow> c \<in> set whiteSpaceChars"

text \<open>
  \<open>toLowerCase()\<close> on Latin-1: \<open>A\<close> to \<open>Z\<close> and the letters from \<open>0xC0\<close> to \<open>0xDE\<close>
  (the multiplication sign \<open>0xD7\<close> apart) move up by 32; every other character stays.
\<close>

definition upperChars :: string where
  "upperChars = ''ABCDEFGHIJKLMNOPQRSTUVWXYZ'' @
     [CHR 0xC0, CHR 0xC1, CHR 0xC2, CHR 0xC3, CHR 0xC4, CHR 0xC5, CHR 0xC6, CHR 0xC7,
      CHR 0xC8, CHR 0xC9, CHR 0xCA, CHR 0xCB, CHR 0xCC, CHR 0xCD, CHR 0xCE, CHR 0xCF,
      CHR 0xD0, CHR 0xD1, CHR 0xD2, CHR 0xD3, CHR 0xD4, CHR 0xD5, CHR 0xD6,
      CHR 0xD8, CHR 0xD9, CHR 0xDA, CHR 0xDB, CHR 0xDC, CHR 0xDD, CHR 0xDE]"

definition lowerChars :: string where
  "lowerChars = ''abcdefghijklmnopqrstuvwxyz'' @
     [CHR 0xE0, CHR 0xE1, CHR 0xE2, CHR 0xE3, CHR 0xE4, CHR 0xE5, CHR 0xE6, CHR 0xE7,
      CHR 0xE8, CHR 0xE9, CHR 0xEA, CHR 0xEB, CHR 0xEC, CHR 0xED, CHR 0xEE, CHR 0xEF,
      CHR 0xF0, CHR 0xF1, CHR 0xF2, CHR 0xF3, CHR 0xF4, CHR 0xF5, CHR 0xF6,
      CHR 0xF8, CHR 0xF9, CHR 0xFA, CHR 0xFB, CHR 0xFC, CHR 0xFD, CHR 0xFE]"

definition toLowerCase_char :: "char \<Rightarrow> char" where
  "toLowerCase_char c = (case map_of (zip upperChars lowerChars) c of None \<Rightarrow> c | Some l \<Rightarrow> l)"

definition toLowerCase :: "string \<Rightarrow> string" where
  "toLowerCase s = map toLowerCase_char s"

text \<open>\<open>replace(/\s+/g, ' ')\<close>: every maximal run of whitespace becomes one space.\<close>

function collapseWhitespace :: "string \<Rightarrow> string" where
  "collapseWhitespace [] = []"
| "collapseWhitespace (c # cs) =
     (if isWhiteSpace c then CHR '' '' # collapseWhitespace (dropWhile isWhiteSpace cs)
      else c # collapseWhitespace cs)"
  by pat_completeness auto
termination
  by (relation "measure length") (auto simp: length_dropWhile_le less_Suc_eq_le)

definition trim :: "string \<Rightarrow> string" where
  "trim s = rev (dropWhile isWhiteSpace (rev (dropWhile isWhiteSpace s)))"

text \<open>\<open>toString()\<close> of an integer: its decimal digits, after a minus sign when negative.\<close>

function digits :: "int \<Rightarrow> string" where
  "digits n =
     (if n < 10 then [''0123456789'' ! nat n]
      else digits (n div 10) @ [''0123456789'' ! nat (n mod 10)])"
  by pat_completeness auto
termination
  by (relation "measure nat") auto

definition toString_int :: "int \<Rightarrow> string" where
  "toString_int i = (if i < 0 then CHR ''-'' # digits (- i) else digits i)"

text \<open>
  \<open>simpleHash\<close>. One round is \<open>hash = ((hash << 5) - hash) + char; hash = hash & hash\<close>:
  the shift and the final \<open>&\<close> work on 32-bit integers and the additions between them are
  exact, so a round is the same arithmetic modulo \<open>2^32\<close>, read as a signed number at the
  end. The input is cut to its first 500 characters after normalisation.
\<close>

definition hashStep :: "32 word \<Rightarrow> char \<Rightarrow> 32 word" where
  "hashStep h c = (push_bit 5 h - h) + of_nat (of_char c)"

definition simpleHash :: "string \<Rightarrow> string" where
  "simpleHash text =
     (let normalized = take 500 (trim (collapseWhitespace (toLowerCase text)))
      in toString_int (sint (foldl hashStep 0 normalized)))"

text \<open>\<open>s.includes(pat)\<close>: \<open>pat\<close> occurs in \<open>s\<close>.\<close>

fun startsWith :: "string \<Rightarrow> string \<Rightarrow> bool" where
  "startsWith [] s = True"
| "startsWith (p # ps) [] = False"
| "startsWith (p # ps) (c # cs) = (p = c \<and> startsWith ps cs)"

fun str_includes :: "string \<Rightarrow> string \<Rightarrow> bool" where
  "str_includes [] pat = (pat = [])"
| "str_includes (c # cs) pat = (startsWith pat (c # cs) \<or> str_includes cs pat)"

text \<open>
  \<open>s.replace(/pat/g, repl)\<close> for a pattern that is a literal, non-empty string: the
  matches are taken left to right without overlap. The replacement string is expanded at
  every match: \<open>$$\<close> is a dollar sign, \<open>$&\<close> the match, \<open>$`\<close> the text before it and
  \<open>$'\<close> the text after it; with no capture group every other \<open>$\<close> is literal.
\<close>

fun getSubstitution :: "string \<Rightarrow> string \<Rightarrow> string \<Rightarrow> string \<Rightarrow> string" where
  "getSubstitution matched pre post [] = []"
| "getSubstitution matched pre post [c] = [c]"
| "getSubstitution matched pre post (c # d # rest) =
     (if c = CHR ''$'' \<and> d = CHR ''$'' then CHR ''$'' # getSubstitution matched pre post rest
      else if c = CHR ''$'' \<and> d = CHR ''&'' then matched @ getSubstitution matched pre post rest
      else if c = CHR ''$'' \<and> d = CHR 0x60 then pre @ getSubstitution matched pre post rest
      else if c = CHR ''$'' \<and> d = CHR 0x27 then post @ getSubstitution matched pre post rest
      else c # getSubstitution matched pre post (d # rest))"

function replaceFrom :: "string \<Rightarrow> string \<Rightarrow> string \<Rightarrow> string \<Rightarrow> string" where
  "replaceFrom pat repl pre [] = []"
| "replaceFrom pat repl pre (c # cs) =
     (if startsWith pat (c # cs)
      then getSubstitution pat pre (drop (length pat - 1) cs) repl
             @ replaceFrom pat repl (pre @ pat) (drop (length pat - 1) cs)
      else c # replaceFrom pat repl (pre @ [c]) cs)"
  by pat_completeness auto
termination
  by (relation "measure (\<lambda>(pat, repl, pre, s). length s)") auto

definition replaceAll :: "string \<Rightarrow> string \<Rightarrow> string \<Rightarrow> string" where
  "replaceAll pat repl s = replaceFrom pat repl [] s"

text \<open>\<open>s.split(/\s+/)\<close>: the pieces between the maximal runs of whitespace.\<close>

function split_ws :: "string \<Rightarrow> string list" where
  "split_ws [] = [[]]"
| "split_ws (c # cs) =
     (if isWhiteSpace c then [] # split_ws (dropWhile isWhiteSpace cs)
      else (case split_ws cs of [] \<Rightarrow> [[c]] | p # ps \<Rightarrow> (c # p) # ps))"
  by pat_completeness auto
termination
  by (relation "measure length") (auto simp: length_dropWhile_le less_Suc_eq_le)

section \<open>JavaScript Set and Map\<close>

text \<open>
  A \<open>Set\<close> iterates in insertion order, and adding a member again changes nothing. A
  \<open>Map\<close> is the list of its entries in insertion order: \<open>set\<close> on a present key
  replaces the value in place, on a new key appends (\<^const>\<open>AList.update\<close>).
\<close>

definition Set_add :: "'a \<Rightarrow> 'a list \<Rightarrow> 'a list" where
  "Set_add x xs = (if x \<in> set xs then xs else xs @ [x])"

definition new_Set :: "'a list \<Rightarrow> 'a list" where
  "new_Set xs = foldl (\<lambda>s x. Set_add x s) [] xs"

definition new_Map :: "('k \<times> 'v) list \<Rightarrow> ('k \<times> 'v) list" where
  "new_Map es = foldl (\<lambda>m (k, v). AList.update k v m) [] es"

text \<open>\<open>array.slice(-n)\<close>: the last \<open>n\<close> elements, the whole array when it is shorter.\<close>

definition slice_last :: "nat \<Rightarrow> 'a list \<Rightarrow> 'a list" where
  "slice_last n xs = drop (length xs - n) xs"

text \<open>Truthiness of a value that is a string, \<open>null\<close> or \<open>undefined\<close>.\<close>

definition truthy :: "string option \<Rightarrow> bool" where
  "truthy v = (case v of None \<Rightarrow> False | Some s \<Rightarrow> s \<noteq> [])"

section \<open>DuplicateDetector\<close>

record duplicate_detector =
  commentedUrls :: "string list"
  commentedAuthors :: "(string \<times> int) list"
  contentHashes :: "string list"

text \<open>The keys of \<open>chrome.storage.local\<close> the helpers read and write; \<open>None\<close> is an absent key.\<close>

record local_storage =
  stored_commentedUrls :: "string list option"
  stored_commentedAuthors :: "(string \<times> int) list option"
  stored_contentHashes :: "string list option"
  stored_lastCleanup :: "int option"
  stored_safetyCounters :: "counters option"

definition new_detector :: duplicate_detector where
  "new_detector = \<lparr> commentedUrls = [], commentedAuthors = [], contentHashes = [] \<rparr>"

definition dd_saveToStorage :: "duplicate_detector \<Rightarrow> local_storage \<Rightarrow> local_storage" where
  "dd_saveToStorage d st =
     st\<lparr> stored_commentedUrls := Some (commentedUrls d),
         stored_commentedAuthors := Some (commentedAuthors d),
         stored_contentHashes := Some (contentHashes d) \<rparr>"

definition hasEngagedUrl :: "duplicate_detector \<Rightarrow> string option \<Rightarrow> bool" where
  "hasEngagedUrl d url =
     (case url of None \<Rightarrow> False
      | Some u \<Rightarrow> if u = [] then False else u \<in> set (commentedUrls d))"

definition hasEngagedAuthor :: "int \<Rightarrow> duplicate_detector \<Rightarrow> string option \<Rightarrow> rat \<Rightarrow> bool" where
  "hasEngagedAuthor now d authorName windowHours =
     (case authorName of None \<Rightarrow> False
      | Some a \<Rightarrow>
          if a = [] then False
          else (case map_of (commentedAuthors d) a of None \<Rightarrow> False
                | Some lastTime \<Rightarrow>
                    if lastTime = 0 then False
                    else (let hoursSince = of_int (now - lastTime) / (1000 * 60 * 60)
                          in hoursSince < windowHours)))"

definition hasEngagedContent :: "duplicate_detector \<Rightarrow> string option \<Rightarrow> bool" where
  "hasEngagedContent d content =
     (case content of None \<Rightarrow> False
      | Some t \<Rightarrow> if t = [] then False else simpleHash t \<in> set (contentHashes d))"

definition recordEngagement ::
  "int \<Rightarrow> string option \<Rightarrow> string option \<Rightarrow> string option \<Rightarrow>
   duplicate_detector \<times> local_storage \<Rightarrow> duplicate_detector \<times> local_storage" where
  "recordEngagement now url authorName content ds =
     (let d = fst ds;
          d = (case url of None \<Rightarrow> d
               | Some u \<Rightarrow> if u = [] then d else d\<lparr> commentedUrls := Set_add u (commentedUrls d) \<rparr>);
          d = (case authorName of None \<Rightarrow> d
               | Some a \<Rightarrow> if a = [] then d
                          else d\<lparr> commentedAuthors := AList.update a now (commentedAuthors d) \<rparr>);
          d = (case content of None \<Rightarrow> d
               | Some t \<Rightarrow> if t = [] then d
                          else d\<lparr> contentHashes := Set_add (simpleHash t) (contentHashes d) \<rparr>)
      in (d, dd_saveToStorage d (snd ds)))"

definition oneWeekMs :: int where
  "oneWeekMs = 7 * 24 * 60 * 60 * 1000"

definition cleanup ::
  "int \<Rightarrow> duplicate_detector \<times> local_storage \<Rightarrow> duplicate_detector \<times> local_storage" where
  "cleanup now ds =
     (let d = fst ds;
          oneWeekAgo = now - (7 * 24 * 60 * 60 * 1000);
          d = d\<lparr> commentedAuthors := filter (\<lambda>(author, timestamp). \<not> timestamp < oneWeekAgo) (commentedAuthors d) \<rparr>;
          d = (if length (commentedUrls d) > 10000
               then d\<lparr> commentedUrls := new_Set (slice_last 5000 (commentedUrls d)) \<rparr> else d);
          d = (if length (contentHashes d) > 10000
               then d\<lparr> contentHashes := new_Set (slice_last 5000 (contentHashes d)) \<rparr> else d)
      in (d, dd_saveToStorage d (snd ds)))"

text \<open>
  \<open>loadFromStorage()\<close> reads the clock three times: for the weekly test, inside
  \<open>cleanup()\<close>, and for the new \<open>lastCleanup\<close> stamp.
\<close>

definition dd_loadFromStorage ::
  "int \<Rightarrow> int \<Rightarrow> int \<Rightarrow> duplicate_detector \<times> local_storage \<Rightarrow> duplicate_detector \<times> local_storage" where
  "dd_loadFromStorage nowTest nowCleanup nowStamp ds =
     (let d = fst ds; data = snd ds;
          d = (case stored_commentedUrls data of None \<Rightarrow> d
               | Some us \<Rightarrow> d\<lparr> commentedUrls := new_Set us \<rparr>);
          d = (case stored_commentedAuthors data of None \<Rightarrow> d
               | Some es \<Rightarrow> d\<lparr> commentedAuthors := new_Map es \<rparr>);
          d = (case stored_contentHashes data of None \<Rightarrow> d
               | Some hs \<Rightarrow> d\<lparr> contentHashes := new_Set hs \<rparr>);
          lastCleanup = (case stored_lastCleanup data of None \<Rightarrow> 0 | Some t \<Rightarrow> t)
      in if nowTest - lastCleanup > oneWeekMs
         then (let ds' = cleanup nowCleanup (d, data)
               in (fst ds', (snd ds')\<lparr> stored_lastCleanup := Some nowStamp \<rparr>))
         else (d, data))"

section \<open>JavaScript strings as UTF-16 code units\<close>

text \<open>
  A JavaScript string is a sequence of 16-bit code units. The duplicate detector hashes
  arbitrary post text, and its hash goes through \<open>toLowerCase()\<close>, whose result outside
  Latin-1 depends on the Unicode Character Database of the JavaScript engine and on the
  position of a capital sigma. This section and the next give the string functions and the
  detector on code units, with that database as a parameter.
\<close>

type_synonym utf16 = "16 word list"

text \<open>A Latin-1 text as a JavaScript string.\<close>

definition js :: "string \<Rightarrow> utf16" where
  "js s = map (\<lambda>c. of_nat (of_char c)) s"

text \<open>
  The code units \<open>\s\<close> matches and \<open>trim()\<close> strips: the white space and line
  terminators of ECMAScript (tab, line feed, vertical tab, form feed, carriage return, the
  space separators of Unicode, line and paragraph separator, and the byte order mark).
\<close>

definition whiteSpaceUnits :: "16 word list" where
  "whiteSpaceUnits =
     [0x0009, 0x000A, 0x000B, 0x000C, 0x000D, 0x0020, 0x00A0, 0x1680,
      0x2000, 0x2001, 0x2002, 0x2003, 0x2004, 0x2005, 0x2006, 0x2007, 0x2008, 0x2009, 0x200A,
      0x2028, 0x2029, 0x202F, 0x205F, 0x3000, 0xFEFF]"

definition isWhiteSpace_utf16 :: "16 word \<Rightarrow> bool" where
  "isWhiteSpace_utf16 u \<longleftrightarrow> u \<in> set whiteSpaceUnits"

text \<open>
  \<open>toLowerCase()\<close> reads the string as code points (a leading surrogate followed by a
  trailing one is one code point, any other code unit is a code point by itself), maps them
  to lower case, and writes the result back as code units.
\<close>

definition isLeadingSurrogate :: "16 word \<Rightarrow> bool" where
  "isLeadingSurrogate u \<longleftrightarrow> 0xD800 \<le> u \<and> u \<le> 0xDBFF"

definition isTrailingSurrogate :: "16 word \<Rightarrow> bool" where
  "isTrailingSurrogate u \<longleftrightarrow> 0xDC00 \<le> u \<and> u \<le> 0xDFFF"

fun stringToCodePoints :: "utf16 \<Rightarrow> nat list" where
  "stringToCodePoints [] = []"
| "stringToCodePoints [u] = [unat u]"
| "stringToCodePoints (u # v # r) =
     (if isLeadingSurrogate u \<and> isTrailingSurrogate v
      then (0x10000 + (unat u - 0xD800) * 0x400 + (unat v - 0xDC00)) # stringToCodePoints r
      else unat u # stringToCodePoints (v # r))"

definition utf16EncodeCodePoint :: "nat \<Rightarrow> utf16" where
  "utf16EncodeCodePoint cp =
     (if cp \<le> 0xFFFF then [of_nat cp]
      else [of_nat ((cp - 0x10000) div 0x400 + 0xD800), of_nat ((cp - 0x10000) mod 0x400 + 0xDC00)])"

definition codePointsToString :: "nat list \<Rightarrow> utf16" where
  "codePointsToString cps = concat (map utf16EncodeCodePoint cps)"

text \<open>
  What \<open>toLowerCase()\<close> reads in the Unicode Character Database: the lowercase mapping of
  a code point (one or more code points; the code point itself when it has none), and the
  properties Cased and Case_Ignorable.
\<close>

record unicode_data =
  lowercase_mapping :: "nat \<Rightarrow> nat list"
  cased :: "nat \<Rightarrow> bool"
  case_ignorable :: "nat \<Rightarrow> bool"

text \<open>
  The one mapping that depends on the context, whatever the language: a capital sigma
  (\<open>U+03A3\<close>) becomes a final small sigma (\<open>U+03C2\<close>) when it is preceded by a cased
  letter and then zero or more case-ignorable characters, and is not followed by zero or
  more case-ignorable characters and then a cased letter. \<open>reachesCasedLetter\<close> takes the
  code points on one side of the sigma, the nearest first.
\<close>

fun reachesCasedLetter :: "unicode_data \<Rightarrow> nat list \<Rightarrow> bool" where
  "reachesCasedLetter db [] = False"
| "reachesCasedLetter db (c # cs) = (cased db c \<or> (case_ignorable db c \<and> reachesCasedLetter db cs))"

definition Final_Sigma :: "unicode_data \<Rightarrow> nat list \<Rightarrow> nat list \<Rightarrow> bool" where
  "Final_Sigma db preceding following \<longleftrightarrow>
     reachesCasedLetter db preceding \<and> \<not> reachesCasedLetter db following"

text \<open>\<open>preceding\<close> holds the code points already passed, the last one first.\<close>

fun toLowercase :: "unicode_data \<Rightarrow> nat list \<Rightarrow> nat list \<Rightarrow> nat list" where
  "toLowercase db preceding [] = []"
| "toLowercase db preceding (c # following) =
     (if c = 0x03A3 \<and> Final_Sigma db preceding following then [0x03C2] else lowercase_mapping db c)
       @ toLowercase db (c # preceding) following"

definition toLowerCase_utf16 :: "unicode_data \<Rightarrow> utf16 \<Rightarrow> utf16" where
  "toLowerCase_utf16 db s = codePointsToString (toLowercase db [] (stringToCodePoints s))"

function collapseWhitespace_utf16 :: "utf16 \<Rightarrow> utf16" where
  "collapseWhitespace_utf16 [] = []"
| "collapseWhitespace_utf16 (u # us) =
     (if isWhiteSpace_utf16 u then 0x0020 # collapseWhitespace_utf16 (dropWhile isWhiteSpace_utf16 us)
      else u # collapseWhitespace_utf16 us)"
  by pat_completeness auto
termination
  by (relation "measure length") (auto simp: length_dropWhile_le less_Suc_eq_le)

definition trim_utf16 :: "utf16 \<Rightarrow> utf16" where
  "trim_utf16 s = rev (dropWhile isWhiteSpace_utf16 (rev (dropWhile isWhiteSpace_utf16 s)))"

text \<open>
  \<open>simpleHash\<close> on code units: \<open>charCodeAt(i)\<close> is the code unit, and a round is exact
  modulo \<open>2^32\<close> as before.
\<close>

definition hashStep_utf16 :: "32 word \<Rightarrow> 16 word \<Rightarrow> 32 word" where
  "hashStep_utf16 h u = (push_bit 5 h - h) + ucast u"

definition simpleHash_utf16 :: "unicode_data \<Rightarrow> utf16 \<Rightarrow> utf16" where
  "simpleHash_utf16 db text =
     (let normalized = take 500 (trim_utf16 (collapseWhitespace_utf16 (toLowerCase_utf16 db text)))
      in js (toString_int (sint (foldl hashStep_utf16 0 normalized))))"

text \<open>
  The Unicode data gives the Latin-1 characters the lowercase mapping of the section on
  Latin-1 strings.
\<close>

definition latin1Mapping :: "unicode_data \<Rightarrow> bool" where
  "latin1Mapping db \<longleftrightarrow>
     list_all (\<lambda>c. lowercase_mapping db (of_char c) = [of_char (toLowerCase_char c)]) Enum.enum"

section \<open>DuplicateDetector on UTF-16 strings\<close>










section \<open>TemplateGenerator\<close>

record template_generator =
  templates :: "string list"
  tg_platform :: string

definition defaultTemplates :: "string \<Rightarrow> string list option" where
  "defaultTemplates p =
     (if p = ''facebook'' \<or> p = ''linkedin'' then
        Some [''Great insight!'', ''Thanks for sharing this perspective'',
              ''This really resonates with me'', ''Valuable points here'',
              ''Appreciate you posting this'', ''Interesting take on this topic'',
              ''Well said!'', ''This adds a lot of value'', ''Love this perspective'',
              ''Thanks for the thoughtful post'']
      else if p = ''twitter'' then
        Some [''Great point!'', ''Thanks for sharing'', ''This resonates'', ''Valuable insight'',
              ''Well said'', ''Interesting take'', ''Appreciate this'', ''Good perspective'',
              ''Love this'', ''Thoughtful thread'']
      else if p = ''instagram'' then
        Some [''Love this!'', ''Amazing content'', ''This is great'', ''So inspiring'',
              ''Beautiful post'', ''Thanks for sharing'', ''Really appreciate this'', ''Well done'',
              ''This resonates'', ''Fantastic work'']
      else if p = ''reddit'' then
        Some [''Great insight'', ''Thanks for sharing'', ''This is helpful'',
              ''Appreciate the perspective'', ''Well explained'', ''Interesting take'',
              ''Good points'', ''This adds value'', ''Thoughtful post'', ''Makes sense'']
      else None)"

definition extractFirstName :: "string \<Rightarrow> string" where
  "extractFirstName fullName =
     (if fullName = [] then []
      else let trimmed = trim fullName
           in if trimmed = [] then []
              else (case split_ws trimmed of [] \<Rightarrow> [] | p # ps \<Rightarrow> p))"

text \<open>
  \<open>processTemplate(template, context)\<close>: \<open>context.authorName || ''\<close> is the name or the
  empty string, and \<open>r\<close> is the draw \<open>Math.random()\<close> behind \<open>{comma}\<close>.
\<close>

definition processTemplate :: "rat \<Rightarrow> string \<Rightarrow> string option \<Rightarrow> string" where
  "processTemplate r template authorName =
     (let result = template;
          result = (if str_includes result ''{author_first}''
                    then replaceAll ''{author_first}''
                           (extractFirstName (case authorName of None \<Rightarrow> [] | Some a \<Rightarrow> a)) result
                    else result);
          result = (if str_includes result ''{comma}''
                    then replaceAll ''{comma}'' (if r > 1 / 2 then '','' else []) result
                    else result)
      in result)"

definition new_generator :: template_generator where
  "new_generator = \<lparr> templates = [], tg_platform = ''facebook'' \<rparr>"

definition setPlatform :: "string option \<Rightarrow> template_generator \<Rightarrow> template_generator" where
  "setPlatform p tg = tg\<lparr> tg_platform := (if truthy p then the p else ''facebook'') \<rparr>"

text \<open>The argument is \<open>None\<close> when the message carries no array.\<close>

definition setTemplates :: "string list option \<Rightarrow> template_generator \<Rightarrow> template_generator" where
  "setTemplates ts tg =
     (case ts of None \<Rightarrow> tg\<lparr> templates := [] \<rparr>
      | Some l \<Rightarrow>
          if length l > 0 then tg\<lparr> templates := filter (\<lambda>t. t \<noteq> [] \<and> length (trim t) > 0) l \<rparr>
          else tg\<lparr> templates := [] \<rparr>)"

definition updateTemplates :: "string list option \<Rightarrow> template_generator \<Rightarrow> template_generator" where
  "updateTemplates ts tg = setTemplates ts tg"

definition getTemplates :: "template_generator \<Rightarrow> string list" where
  "getTemplates tg =
     (if length (templates tg) > 0 then templates tg
      else (case defaultTemplates (tg_platform tg) of
              Some l \<Rightarrow> l
            | None \<Rightarrow> the (defaultTemplates ''facebook'')))"

text \<open>
  \<open>generateComment\<close> draws twice: the template index and (inside \<open>processTemplate\<close>) the
  comma. An index outside the array reads \<open>undefined\<close>, on which \<open>processTemplate\<close>
  throws: the result is \<open>None\<close>.
\<close>

definition generateComment ::
  "rat \<Rightarrow> rat \<Rightarrow> string option \<Rightarrow> template_generator \<Rightarrow> string option" where
  "generateComment rIndex rComma authorName tg =
     (let ts = getTemplates tg;
          i = \<lfloor>rIndex * of_nat (length ts)\<rfloor>
      in if 0 \<le> i \<and> i < int (length ts)
         then Some (processTemplate rComma (ts ! nat i) authorName)
         else None)"

definition empty_storage :: local_storage where
  "empty_storage =
     \<lparr> stored_commentedUrls = None, stored_commentedAuthors = None, stored_contentHashes = None,
       stored_lastCleanup = None, stored_safetyCounters = None \<rparr>"


section \<open>Engines: settings, statistics, observable effects\<close>

text \<open>
  \<open>this.settings\<close>. The last four keys are in the LinkedIn engine's defaults only; in the
  other engines they are \<open>undefined\<close> (\<open>None\<close>) until a settings message carries them.
\<close>

record surf_settings =
  scrollSpeedMin :: int
  scrollSpeedMax :: int
  enableAutoLike :: bool
  likeDelay :: int
  likeProbability :: int
  enableAutoComment :: bool
  commentDelay :: int
  commentProbability :: int
  enableSeeMore :: bool
  seeMoreDelay :: int
  postEngagementDelay :: int
  skipCompanyPages :: "bool option"
  skipFriendActivities :: "bool option"
  timeFilterEnabled :: "bool option"
  maxPostAge :: "int option"

text \<open>\<open>message.settings\<close> of an \<open>updateSettings\<close> message: \<open>None\<close> is a key the message lacks.\<close>

record settings_update =
  new_scrollSpeedMin :: "int option"
  new_scrollSpeedMax :: "int option"
  new_enableAutoLike :: "bool option"
  new_likeDelay :: "int option"
  new_likeProbability :: "int option"
  new_enableAutoComment :: "bool option"
  new_commentDelay :: "int option"
  new_commentProbability :: "int option"
  new_enableSeeMore :: "bool option"
  new_seeMoreDelay :: "int option"
  new_postEngagementDelay :: "int option"
  new_skipCompanyPages :: "bool option"
  new_skipFriendActivities :: "bool option"
  new_timeFilterEnabled :: "bool option"
  new_maxPostAge :: "int option"

definition base_default_settings :: surf_settings where
  "base_default_settings =
     \<lparr> scrollSpeedMin = 2000, scrollSpeedMax = 4000, enableAutoLike = False, likeDelay = 5000,
       likeProbability = 70, enableAutoComment = False, commentDelay = 8000,
       commentProbability = 30, enableSeeMore = False, seeMoreDelay = 2000,
       postEngagementDelay = 3000, skipCompanyPages = None, skipFriendActivities = None,
       timeFilterEnabled = None, maxPostAge = None \<rparr>"

definition li_default_settings :: surf_settings where
  "li_default_settings =
     base_default_settings\<lparr> skipCompanyPages := Some True, skipFriendActivities := Some True,
       timeFilterEnabled := Some True, maxPostAge := Some 72 \<rparr>"

text \<open>One key of the object spread \<open>{ ...this.settings, ...message.settings }\<close>.\<close>

definition spread_key :: "'a \<Rightarrow> 'a option \<Rightarrow> 'a" where
  "spread_key old new = (case new of None \<Rightarrow> old | Some v \<Rightarrow> v)"

definition spread_opt_key :: "'a option \<Rightarrow> 'a option \<Rightarrow> 'a option" where
  "spread_opt_key old new = (case new of None \<Rightarrow> old | Some v \<Rightarrow> Some v)"

definition spread_settings :: "surf_settings \<Rightarrow> settings_update \<Rightarrow> surf_settings" where
  "spread_settings s u =
     \<lparr> scrollSpeedMin = spread_key (scrollSpeedMin s) (new_scrollSpeedMin u),
       scrollSpeedMax = spread_key (scrollSpeedMax s) (new_scrollSpeedMax u),
       enableAutoLike = spread_key (enableAutoLike s) (new_enableAutoLike u),
       likeDelay = spread_key (likeDelay s) (new_likeDelay u),
       likeProbability = spread_key (likeProbability s) (new_likeProbability u),
       enableAutoComment = spread_key (enableAutoComment s) (new_enableAutoComment u),
       commentDelay = spread_key (commentDelay s) (new_commentDelay u),
       commentProbability = spread_key (commentProbability s) (new_commentProbability u),
       enableSeeMore = spread_key (enableSeeMore s) (new_enableSeeMore u),
       seeMoreDelay = spread_key (seeMoreDelay s) (new_seeMoreDelay u),
       postEngagementDelay = spread_key (postEngagementDelay s) (new_postEngagementDelay u),
       skipCompanyPages = spread_opt_key (skipCompanyPages s) (new_skipCompanyPages u),
       skipFriendActivities = spread_opt_key (skipFriendActivities s) (new_skipFriendActivities u),
       timeFilterEnabled = spread_opt_key (timeFilterEnabled s) (new_timeFilterEnabled u),
       maxPostAge = spread_opt_key (maxPostAge s) (new_maxPostAge u) \<rparr>"

record session_stats =
  totalPostsViewed :: int
  totalSeeMoreClicked :: int
  totalPostsLiked :: int
  totalComments :: int

definition zero_stats :: session_stats where
  "zero_stats = \<lparr> totalPostsViewed = 0, totalSeeMoreClicked = 0, totalPostsLiked = 0, totalComments = 0 \<rparr>"

text \<open>
  What an engine does to the page is kept as a trace. A click stands for one call of
  \<open>humanLikeClick\<close> (or the Facebook engine's \<open>randomClickWithinElement\<close>): the cursor
  animation, the waits inside it and the toast are not modelled. \<open>Slept\<close> is one
  \<open>sleep\<close> of the engine's own code, \<open>Typed\<close> one \<open>typeText\<close> into a text area.
\<close>

datatype target =
  LikeButton nat | CommentButton | CommentInput | ElementAtPoint nat | TextArea nat
  | SubmitButton nat | SeeMoreButton nat

datatype event =
  Clicked target | Typed nat string | PressedEnter nat | Slept | ScrolledBy | ScrolledIntoView

text \<open>
  The fields of an engine object that the modelled methods touch, with the two stores
  behind it (\<open>chrome.storage.local\<close>, and the \<open>surfSettings\<close> key of
  \<open>chrome.storage.sync\<close>). The Facebook engine constructs no SafetyLimits and no
  DuplicateDetector: its methods never read \<open>safetyCounters\<close> or \<open>duplicateDetector\<close>.
\<close>

record engine =
  platform :: string
  isActive :: bool
  timerPending :: bool
  settings :: surf_settings
  sessionStats :: session_stats
  safetyCounters :: counters
  duplicateDetector :: duplicate_detector
  templateGenerator :: template_generator
  localStorage :: local_storage
  syncSurfSettings :: "surf_settings option"
  events :: "event list"

section \<open>Messages\<close>

text \<open>
  The \<open>updateSettings\<close> case of \<open>listenForMessages\<close>: the same two statements in
  \<open>BaseAutoSurfer\<close>, \<open>LinkedInAutoSurfer\<close> and \<open>FacebookAutoSurfer\<close>.
\<close>

definition saveSettings :: "engine \<Rightarrow> engine" where
  "saveSettings e = e\<lparr> syncSurfSettings := Some (settings e) \<rparr>"

definition onUpdateSettings :: "settings_update \<Rightarrow> engine \<Rightarrow> engine" where
  "onUpdateSettings u e = saveSettings (e\<lparr> settings := spread_settings (settings e) u \<rparr>)"

text \<open>
  The \<open>updateTemplates\<close> case: \<open>message.platform\<close> and \<open>message.templates\<close>. Only
  \<open>BaseAutoSurfer\<close> compares the platform.
\<close>

definition base_onUpdateTemplates :: "string option \<Rightarrow> string list option \<Rightarrow> engine \<Rightarrow> engine" where
  "base_onUpdateTemplates msgPlatform msgTemplates e =
     (if msgPlatform = Some (platform e)
      then e\<lparr> templateGenerator := updateTemplates msgTemplates (templateGenerator e) \<rparr>
      else e)"

definition li_onUpdateTemplates :: "string option \<Rightarrow> string list option \<Rightarrow> engine \<Rightarrow> engine" where
  "li_onUpdateTemplates msgPlatform msgTemplates e =
     e\<lparr> templateGenerator := updateTemplates msgTemplates (templateGenerator e) \<rparr>"

definition fb_onUpdateTemplates :: "string option \<Rightarrow> string list option \<Rightarrow> engine \<Rightarrow> engine" where
  "fb_onUpdateTemplates msgPlatform msgTemplates e =
     e\<lparr> templateGenerator := updateTemplates msgTemplates (templateGenerator e) \<rparr>"

section \<open>The like action\<close>

text \<open>An element matched by the like selector inside a post, with the attributes read.\<close>

record like_button =
  lb_ariaLabel :: "string option"
  lb_ariaPressed :: "string option"
  lb_surferLiked :: "string option"
  lb_reactionsCount :: bool
  lb_textContainer :: bool

text \<open>
  The \<open>forEach\<close> that picks the button: the state is \<open>(likeButton, shortestLength)\<close>,
  \<open>None\<close> for \<open>null\<close> and for \<open>Infinity\<close>.
\<close>

definition below :: "nat \<Rightarrow> nat option \<Rightarrow> bool" where
  "below n bound = (case bound of None \<Rightarrow> True | Some b \<Rightarrow> n < b)"

definition label_of :: "like_button \<Rightarrow> string" where
  "label_of btn = (case lb_ariaLabel btn of None \<Rightarrow> [] | Some l \<Rightarrow> l)"

definition base_pick_step :: "nat option \<times> nat option \<Rightarrow> nat \<times> like_button \<Rightarrow> nat option \<times> nat option" where
  "base_pick_step acc ib =
     (let ariaLabel = label_of (snd ib)
      in if \<not> str_includes ariaLabel '':'' \<and> below (length ariaLabel) (snd acc)
         then (Some (fst ib), Some (length ariaLabel))
         else acc)"

definition base_pickLikeButton :: "like_button list \<Rightarrow> nat option" where
  "base_pickLikeButton bs = fst (foldl base_pick_step (None, None) (enumerate 0 bs))"

definition li_pick_step :: "nat option \<times> nat option \<Rightarrow> nat \<times> like_button \<Rightarrow> nat option \<times> nat option" where
  "li_pick_step acc ib =
     (let ariaLabel = label_of (snd ib);
          hasCounterAttr = (lb_reactionsCount (snd ib) \<or> lb_textContainer (snd ib))
      in if hasCounterAttr then acc
         else if str_includes ariaLabel '':'' then acc
         else if length ariaLabel > 0 \<and> below (length ariaLabel) (snd acc)
         then (Some (fst ib), Some (length ariaLabel))
         else acc)"

definition li_pickLikeButton :: "like_button list \<Rightarrow> nat option" where
  "li_pickLikeButton bs = fst (foldl li_pick_step (None, None) (enumerate 0 bs))"

text \<open>The part of a post that \<open>likePost\<close> reads and writes.\<close>

definition isNotLiked :: "like_button \<Rightarrow> bool" where
  "isNotLiked b = (lb_ariaPressed b \<noteq> Some ''true'')"

definition notClickedByUs :: "like_button \<Rightarrow> bool" where
  "notClickedByUs b = (\<not> truthy (lb_surferLiked b))"

definition markLiked :: "nat \<Rightarrow> like_button list \<Rightarrow> like_button list" where
  "markLiked i bs = bs[i := (bs ! i)\<lparr> lb_surferLiked := Some ''true'' \<rparr>]"

definition sl_saveToStorage :: "engine \<Rightarrow> engine" where
  "sl_saveToStorage e = e\<lparr> localStorage := (localStorage e)\<lparr> stored_safetyCounters := Some (safetyCounters e) \<rparr> \<rparr>"

definition bumpLiked :: "engine \<Rightarrow> engine" where
  "bumpLiked e = e\<lparr> sessionStats := (sessionStats e)\<lparr> totalPostsLiked := totalPostsLiked (sessionStats e) + 1 \<rparr> \<rparr>"

text \<open>
  The guarded part of \<open>likePost\<close> in \<open>BaseAutoSurfer\<close> and \<open>LinkedInAutoSurfer\<close>, once
  button \<open>i\<close> is picked. The result is the engine and the post's like buttons.
\<close>

definition guardedLike :: "int \<Rightarrow> nat \<Rightarrow> engine \<times> like_button list \<Rightarrow> engine \<times> like_button list" where
  "guardedLike now i ebs =
     (let e = fst ebs; bs = snd ebs
      in if isNotLiked (bs ! i) \<and> notClickedByUs (bs ! i)
         then (let allowed = canLike now (safetyCounters e);
                   e = e\<lparr> safetyCounters := snd allowed \<rparr>
               in if \<not> fst allowed then (e, bs)
                  else (let bs = markLiked i bs;
                            e = e\<lparr> events := events e @ [Slept, Clicked (LikeButton i)] \<rparr>;
                            e = bumpLiked e;
                            e = sl_saveToStorage (e\<lparr> safetyCounters := recordLike (safetyCounters e) \<rparr>)
                        in (e, bs)))
         else (e, bs))"

definition base_likePost :: "int \<Rightarrow> engine \<times> like_button list \<Rightarrow> engine \<times> like_button list" where
  "base_likePost now ebs =
     (case base_pickLikeButton (snd ebs) of None \<Rightarrow> ebs | Some i \<Rightarrow> guardedLike now i ebs)"

definition li_likePost :: "int \<Rightarrow> engine \<times> like_button list \<Rightarrow> engine \<times> like_button list" where
  "li_likePost now ebs =
     (case li_pickLikeButton (snd ebs) of None \<Rightarrow> ebs | Some i \<Rightarrow> guardedLike now i ebs)"

text \<open>\<open>FacebookAutoSurfer.likePost\<close>: the same pick as the base class, no limiter.\<close>

definition fb_likePost :: "engine \<times> like_button list \<Rightarrow> engine \<times> like_button list" where
  "fb_likePost ebs =
     (case base_pickLikeButton (snd ebs) of None \<Rightarrow> ebs
      | Some i \<Rightarrow>
          (let e = fst ebs; bs = snd ebs
           in if isNotLiked (bs ! i) \<and> notClickedByUs (bs ! i)
              then (let bs = markLiked i bs;
                        e = e\<lparr> events := events e @ [Slept, Slept, Clicked (LikeButton i)] \<rparr>;
                        e = bumpLiked e
                    in (e, bs))
              else (e, bs)))"

section \<open>Posts\<close>

text \<open>
  A post is a DOM subtree; the record holds what the engines read from it and the marker
  attributes they write on it. A text field is the \<open>textContent\<close> of the first element the
  selector matches, \<open>None\<close> when nothing matches.
\<close>

record clickable =
  cl_text :: string
  cl_ariaLabel :: "string option"
  cl_inViewport :: bool
  cl_surferClicked :: "string option"

record comment_button =
  cb_surferCommented :: "string option"

record post =
  surferEngaged :: "string option"
  inViewport :: bool
  fullyEngageable :: bool
  likeButtons :: "like_button list"
  commentButton :: "comment_button option"
  clickables :: "clickable list"
  dataUrn :: "string option"
  nameTexts :: "string option list"
  hiddenSpanTexts :: "string list"
  descriptionText :: "string option"
  subDescriptionText :: "string option"
  actorDescriptionText :: "string option"
  supplementaryText :: "string option"

section \<open>LinkedIn: extraction and the skip filter\<close>

definition getPostUrn :: "post \<Rightarrow> string option" where
  "getPostUrn p = dataUrn p"

definition li_getPostUrl :: "post \<Rightarrow> string option" where
  "li_getPostUrl p =
     (case getPostUrn p of
        None \<Rightarrow> None
      | Some urn \<Rightarrow> if urn = [] then None else Some (''linkedin://post/'' @ urn))"

text \<open>The loop over the six name selectors: the first trimmed text longer than one character.\<close>

fun firstName_text :: "string option list \<Rightarrow> string option" where
  "firstName_text [] = None"
| "firstName_text (None # rest) = firstName_text rest"
| "firstName_text (Some t # rest) =
     (let name = trim t in if name \<noteq> [] \<and> length name > 1 then Some name else firstName_text rest)"

definition isAsciiLetter :: "char \<Rightarrow> bool" where
  "isAsciiLetter c \<longleftrightarrow> c \<in> set ''ABCDEFGHIJKLMNOPQRSTUVWXYZabcdefghijklmnopqrstuvwxyz''"

text \<open>The test \<open>/^[A-Za-z\s\-']+$/\<close>.\<close>

definition looksLikeName :: "string \<Rightarrow> bool" where
  "looksLikeName t \<longleftrightarrow>
     t \<noteq> [] \<and> list_all (\<lambda>c. isAsciiLetter c \<or> isWhiteSpace c \<or> c = CHR ''-'' \<or> c = CHR 0x27) t"

fun firstSpan_name :: "string list \<Rightarrow> string option" where
  "firstSpan_name [] = None"
| "firstSpan_name (t # rest) =
     (let text = trim t
      in if text \<noteq> [] \<and> length text > 2 \<and> length text < 50 \<and> looksLikeName text then Some text
         else firstSpan_name rest)"

definition li_getAuthorName :: "post \<Rightarrow> string" where
  "li_getAuthorName p =
     (case firstName_text (nameTexts p) of
        Some name \<Rightarrow> name
      | None \<Rightarrow> (case firstSpan_name (hiddenSpanTexts p) of Some text \<Rightarrow> text | None \<Rightarrow> ''Unknown''))"

definition li_getPostContent :: "post \<Rightarrow> string" where
  "li_getPostContent p =
     (case descriptionText p of None \<Rightarrow> [] | Some t \<Rightarrow> collapseWhitespace (trim t))"

text \<open>
  \<open>getPostAge\<close>: the first match of \<open>/(\d+)\s*([smhdw])/i\<close>. A match starts at a digit, takes
  the whole run of digits from there and the whitespace after it, and needs a unit letter
  next; backtracking cannot help, so a failed start moves one character on.
\<close>

definition isDigit :: "char \<Rightarrow> bool" where
  "isDigit c \<longleftrightarrow> c \<in> set ''0123456789''"

definition isAgeUnit :: "char \<Rightarrow> bool" where
  "isAgeUnit c \<longleftrightarrow> c \<in> set ''smhdwSMHDW''"

fun ageMatch :: "string \<Rightarrow> (string \<times> char) option" where
  "ageMatch [] = None"
| "ageMatch (c # cs) =
     (if isDigit c
      then (case dropWhile isWhiteSpace (dropWhile isDigit cs) of
              [] \<Rightarrow> ageMatch cs
            | u # rest \<Rightarrow> if isAgeUnit u then Some (c # takeWhile isDigit cs, u) else ageMatch cs)
      else ageMatch cs)"

definition digitValue :: "char \<Rightarrow> int" where
  "digitValue c = (case map_of (zip ''0123456789'' [0, 1, 2, 3, 4, 5, 6, 7, 8, 9]) c of None \<Rightarrow> 0 | Some v \<Rightarrow> v)"

definition parseInt :: "string \<Rightarrow> int" where
  "parseInt ds = foldl (\<lambda>n c. 10 * n + digitValue c) 0 ds"

definition ageHoursOf :: "int \<Rightarrow> char \<Rightarrow> rat" where
  "ageHoursOf v unit =
     (if unit = CHR ''s'' then of_int v / 3600
      else if unit = CHR ''m'' then of_int v / 60
      else if unit = CHR ''h'' then of_int v
      else if unit = CHR ''d'' then of_int v * 24
      else of_int v * 24 * 7)"

record post_age =
  ageHours :: "rat option"
  isPromoted :: bool

definition getPostAge :: "post \<Rightarrow> post_age" where
  "getPostAge p =
     (case subDescriptionText p of
        None \<Rightarrow> \<lparr> ageHours = None, isPromoted = False \<rparr>
      | Some t \<Rightarrow>
          (let timeText = trim t;
               promoted = str_includes (toLowerCase timeText) ''promoted''
           in case ageMatch timeText of
                None \<Rightarrow> \<lparr> ageHours = None, isPromoted = promoted \<rparr>
              | Some m \<Rightarrow> \<lparr> ageHours = Some (ageHoursOf (parseInt (fst m)) (toLowerCase_char (snd m))),
                            isPromoted = promoted \<rparr>))"

text \<open>\<open>isCompanyPost\<close>: the test \<open>/^\d[\d\s,.]*followers?$/i\<close> on the trimmed description.\<close>

definition isCompanyPost :: "post \<Rightarrow> bool" where
  "isCompanyPost p =
     (case (case actorDescriptionText p of None \<Rightarrow> [] | Some t \<Rightarrow> trim t) of
        [] \<Rightarrow> False
      | c # cs \<Rightarrow>
          isDigit c \<and>
          toLowerCase (dropWhile (\<lambda>x. isDigit x \<or> isWhiteSpace x \<or> x = CHR '','' \<or> x = CHR ''.'') cs)
            \<in> {''follower'', ''followers''})"

definition isFriendActivity :: "post \<Rightarrow> bool" where
  "isFriendActivity p =
     (case supplementaryText p of
        None \<Rightarrow> False
      | Some t \<Rightarrow>
          (let text = toLowerCase t
           in str_includes text ''commented on'' \<or> str_includes text ''liked this'' \<or>
              str_includes text ''shared this''))"

definition shouldSkipPost :: "surf_settings \<Rightarrow> post \<Rightarrow> bool" where
  "shouldSkipPost s p =
     (let age = getPostAge p
      in if isPromoted age then True
         else if timeFilterEnabled s = Some True \<and>
                 (case ageHours age of
                    None \<Rightarrow> False
                  | Some h \<Rightarrow> (case maxPostAge s of None \<Rightarrow> False | Some m \<Rightarrow> h > of_int m))
         then True
         else if skipCompanyPages s = Some True \<and> isCompanyPost p then True
         else if skipFriendActivities s = Some True \<and> isFriendActivity p then True
         else False)"

section \<open>The comment action\<close>

text \<open>
  What the page answers once the comment control has been clicked: the elements the
  input selectors match (one list per selector, in document order), the focused element
  when it lies inside the post, and what the submit selectors match inside the post. For
  a text area, \<open>ta_ownSubmit\<close> and \<open>ta_ancestorSubmit\<close> are the answers of
  \<open>querySelector\<close>, one per submit selector, inside the text area and inside each of its
  ancestors, nearest first.
\<close>

record submit_button =
  sb_id :: nat
  sb_disabled :: bool

record text_area =
  ta_id :: nat
  ta_inViewport :: bool
  ta_offsetParent :: bool
  ta_contentEditable :: string
  ta_contenteditableAttr :: "string option"
  ta_tagName :: string
  ta_width :: rat
  ta_height :: rat
  ta_top :: rat
  ta_bottom :: rat
  ta_distance :: rat
  ta_elementAtPoint :: "nat option"
  ta_ownSubmit :: "submit_button option list"
  ta_ancestorSubmit :: "submit_button option list list"

record comment_dom =
  cd_commentInput :: bool
  cd_textAreas :: "text_area list list"
  cd_focused :: "text_area option"
  cd_scopeSubmit :: "submit_button option list"
  cd_viewportHeight :: rat

definition log :: "event list \<Rightarrow> engine \<Rightarrow> engine" where
  "log evs e = e\<lparr> events := events e @ evs \<rparr>"

definition markCommented :: "post \<Rightarrow> post" where
  "markCommented p =
     p\<lparr> commentButton := map_option (\<lambda>cb. cb\<lparr> cb_surferCommented := Some ''true'' \<rparr>) (commentButton p) \<rparr>"

definition clickTarget :: "text_area \<Rightarrow> target" where
  "clickTarget ta = (case ta_elementAtPoint ta of None \<Rightarrow> TextArea (ta_id ta) | Some k \<Rightarrow> ElementAtPoint k)"

text \<open>One pass over the submit selectors inside a container: \<open>btn && !btn.disabled\<close>.\<close>

fun firstEnabled :: "submit_button option list \<Rightarrow> submit_button option" where
  "firstEnabled [] = None"
| "firstEnabled (None # rest) = firstEnabled rest"
| "firstEnabled (Some b # rest) = (if \<not> sb_disabled b then Some b else firstEnabled rest)"

fun firstInContainers :: "submit_button option list list \<Rightarrow> submit_button option" where
  "firstInContainers [] = None"
| "firstInContainers (c # cs) =
     (case firstEnabled c of Some b \<Rightarrow> Some b | None \<Rightarrow> firstInContainers cs)"

text \<open>\<open>BaseAutoSurfer.findSubmitButton\<close>: the post, then up to five ancestors of the text area.\<close>

definition base_findSubmitButton :: "text_area \<Rightarrow> comment_dom \<Rightarrow> submit_button option" where
  "base_findSubmitButton ta view =
     (case firstEnabled (cd_scopeSubmit view) of
        Some b \<Rightarrow> Some b
      | None \<Rightarrow> firstInContainers (take 5 (ta_ancestorSubmit ta)))"

text \<open>
  \<open>LinkedInAutoSurfer.findSubmitButton\<close>: the text area and up to five ancestors, then the
  scope root.
\<close>

definition li_findSubmitButton :: "text_area \<Rightarrow> comment_dom \<Rightarrow> submit_button option" where
  "li_findSubmitButton ta view =
     (case firstInContainers (take 6 (ta_ownSubmit ta # ta_ancestorSubmit ta)) of
        Some b \<Rightarrow> Some b
      | None \<Rightarrow> firstEnabled (cd_scopeSubmit view))"

definition base_isVisible :: "text_area \<Rightarrow> bool" where
  "base_isVisible el = (ta_inViewport el \<or> ta_offsetParent el)"

definition base_isEditable :: "text_area \<Rightarrow> bool" where
  "base_isEditable el =
     (ta_contentEditable el = ''true'' \<or> ta_contenteditableAttr el = Some ''true'' \<or> ta_tagName el = ''TEXTAREA'')"

fun base_findTextArea :: "text_area list list \<Rightarrow> text_area option" where
  "base_findTextArea [] = None"
| "base_findTextArea (elements # rest) =
     (case find (\<lambda>el. base_isVisible el \<and> base_isEditable el) elements of
        Some el \<Rightarrow> Some el
      | None \<Rightarrow> base_findTextArea rest)"

definition li_isElementVisible :: "rat \<Rightarrow> text_area \<Rightarrow> bool" where
  "li_isElementVisible viewportHeight el =
     (ta_width el > 0 \<and> ta_height el > 0 \<and> ta_bottom el > 0 \<and> ta_top el < viewportHeight * (3 / 2))"

definition li_isElementEditable :: "text_area \<Rightarrow> bool" where
  "li_isElementEditable el = (ta_contentEditable el = ''true'' \<or> ta_tagName el = ''TEXTAREA'')"

text \<open>The head of the candidates after the stable sort by distance: the first nearest one.\<close>

fun closestFrom :: "text_area \<Rightarrow> text_area list \<Rightarrow> text_area" where
  "closestFrom best [] = best"
| "closestFrom best (c # cs) = closestFrom (if ta_distance c < ta_distance best then c else best) cs"

definition li_findTextArea :: "comment_dom \<Rightarrow> text_area option" where
  "li_findTextArea view =
     (let ok = (\<lambda>el. li_isElementVisible (cd_viewportHeight view) el \<and> li_isElementEditable el);
          candidates = concat (map (filter ok) (cd_textAreas view))
      in case candidates of
           c # cs \<Rightarrow> Some (closestFrom c cs)
         | [] \<Rightarrow> (case cd_focused view of
                    Some focused \<Rightarrow> if ok focused then Some focused else None
                  | None \<Rightarrow> None))"

text \<open>
  \<open>addPositiveComment\<close> returns a boolean and mutates the engine and the post. A template
  index out of range makes \<open>generateComment\<close> throw; the \<open>catch\<close> returns false.
\<close>

definition base_addPositiveComment ::
  "comment_dom \<Rightarrow> rat \<Rightarrow> rat \<Rightarrow> engine \<times> post \<Rightarrow> bool \<times> engine \<times> post" where
  "base_addPositiveComment view rIndex rComma ep =
     (let e = fst ep; p = snd ep
      in case commentButton p of
           None \<Rightarrow> (False, e, p)
         | Some cb \<Rightarrow>
             if truthy (cb_surferCommented cb) then (False, e, p)
             else (let p = markCommented p;
                       e = log [Clicked CommentButton, Slept] e;
                       e = (if platform e = ''linkedin'' \<and> cd_commentInput view
                            then log [Clicked CommentInput, Slept] e else e)
                   in case base_findTextArea (cd_textAreas view) of
                        None \<Rightarrow> (False, e, p)
                      | Some textArea \<Rightarrow>
                          (let e = log [Clicked (clickTarget textArea), Slept] e
                           in case generateComment rIndex rComma (Some []) (templateGenerator e) of
                                None \<Rightarrow> (False, e, p)
                              | Some randomResponse \<Rightarrow>
                                  (let e = log [Typed (ta_id textArea) randomResponse, Slept] e
                                   in case base_findSubmitButton textArea view of
                                        Some submitButton \<Rightarrow>
                                          (True, log [Clicked (SubmitButton (sb_id submitButton))] e, p)
                                      | None \<Rightarrow> (False, e, p)))))"

text \<open>
  In \<open>LinkedInAutoSurfer.addPositiveComment\<close> the scope root is the post itself: the post
  is an element whenever the comment control was found inside it.
\<close>

definition li_addPositiveComment ::
  "comment_dom \<Rightarrow> rat \<Rightarrow> rat \<Rightarrow> engine \<times> post \<Rightarrow> bool \<times> engine \<times> post" where
  "li_addPositiveComment view rIndex rComma ep =
     (let e = fst ep; p = snd ep
      in case commentButton p of
           None \<Rightarrow> (False, e, p)
         | Some cb \<Rightarrow>
             if truthy (cb_surferCommented cb) then (False, e, p)
             else (let p = markCommented p;
                       e = log [Clicked CommentButton, Slept] e
                   in case li_findTextArea view of
                        None \<Rightarrow> (False, e, p)
                      | Some textArea \<Rightarrow>
                          (let e = log [Clicked (clickTarget textArea), Slept] e
                           in case generateComment rIndex rComma (Some (li_getAuthorName p)) (templateGenerator e) of
                                None \<Rightarrow> (False, e, p)
                              | Some randomResponse \<Rightarrow>
                                  (let e = log [Typed (ta_id textArea) randomResponse, Slept] e
                                   in case li_findSubmitButton textArea view of
                                        Some submitButton \<Rightarrow>
                                          (True, log [Clicked (SubmitButton (sb_id submitButton))] e, p)
                                      | None \<Rightarrow> (False, e, p)))))"

text \<open>What \<open>commentPost\<close> does after a successful composition, at clock reading \<open>later\<close>.\<close>

definition bumpComments :: "engine \<Rightarrow> engine" where
  "bumpComments e = e\<lparr> sessionStats := (sessionStats e)\<lparr> totalComments := totalComments (sessionStats e) + 1 \<rparr> \<rparr>"

definition recordCommented ::
  "int \<Rightarrow> string option \<Rightarrow> string option \<Rightarrow> string option \<Rightarrow> engine \<Rightarrow> engine" where
  "recordCommented later postUrl authorName content e =
     (let e = bumpComments e;
          e = sl_saveToStorage (e\<lparr> safetyCounters := recordComment (safetyCounters e) \<rparr>);
          ds = recordEngagement later postUrl authorName content (duplicateDetector e, localStorage e)
      in e\<lparr> duplicateDetector := fst ds, localStorage := snd ds \<rparr>)"

text \<open>
  \<open>BaseAutoSurfer.commentPost\<close>. The three extraction methods are hooks a platform class
  overrides; the base class returns \<open>null\<close> from each.
\<close>

record hooks =
  getPostUrl :: "post \<Rightarrow> string option"
  getAuthorName :: "post \<Rightarrow> string option"
  getPostContent :: "post \<Rightarrow> string option"

definition base_hooks :: hooks where
  "base_hooks = \<lparr> getPostUrl = (\<lambda>p. None), getAuthorName = (\<lambda>p. None), getPostContent = (\<lambda>p. None) \<rparr>"

definition base_duplicateSkip :: "hooks \<Rightarrow> int \<Rightarrow> duplicate_detector \<Rightarrow> post \<Rightarrow> bool" where
  "base_duplicateSkip h now d p =
     (if hasEngagedUrl d (getPostUrl h p) then True
      else if hasEngagedAuthor now d (getAuthorName h p) 24 then True
      else if hasEngagedContent d (getPostContent h p) then True
      else False)"

definition base_commentPost ::
  "hooks \<Rightarrow> int \<Rightarrow> int \<Rightarrow> comment_dom \<Rightarrow> rat \<Rightarrow> rat \<Rightarrow> engine \<times> post \<Rightarrow> engine \<times> post" where
  "base_commentPost h now later view rIndex rComma ep =
     (let allowed = canComment now (safetyCounters (fst ep));
          e = (fst ep)\<lparr> safetyCounters := snd allowed \<rparr>;
          p = snd ep
      in if \<not> fst allowed then (e, p)
         else if base_duplicateSkip h now (duplicateDetector e) p then (e, p)
         else (let r = base_addPositiveComment view rIndex rComma (e, p);
                   e = fst (snd r); p = snd (snd r)
               in if fst r
                  then (recordCommented later (getPostUrl h p) (getAuthorName h p) (getPostContent h p) e, p)
                  else (e, p)))"

text \<open>
  \<open>LinkedInAutoSurfer.commentPost\<close>: the author check runs only when the extracted name is
  not the sentinel \<open>'Unknown'\<close>.
\<close>

definition li_duplicateSkip :: "int \<Rightarrow> duplicate_detector \<Rightarrow> post \<Rightarrow> bool" where
  "li_duplicateSkip now d p =
     (let postUrl = li_getPostUrl p; authorName = li_getAuthorName p; content = li_getPostContent p
      in if hasEngagedUrl d postUrl then True
         else if authorName \<noteq> ''Unknown'' \<and> hasEngagedAuthor now d (Some authorName) 24 then True
         else if hasEngagedContent d (Some content) then True
         else False)"

definition li_composeAndRecord ::
  "int \<Rightarrow> comment_dom \<Rightarrow> rat \<Rightarrow> rat \<Rightarrow> engine \<times> post \<Rightarrow> engine \<times> post" where
  "li_composeAndRecord later view rIndex rComma ep =
     (let r = li_addPositiveComment view rIndex rComma ep;
          e = fst (snd r); p = snd (snd r)
      in if fst r
         then (recordCommented later (li_getPostUrl p) (Some (li_getAuthorName p)) (Some (li_getPostContent p)) e, p)
         else (e, p))"

definition li_commentPost ::
  "int \<Rightarrow> int \<Rightarrow> comment_dom \<Rightarrow> rat \<Rightarrow> rat \<Rightarrow> engine \<times> post \<Rightarrow> engine \<times> post" where
  "li_commentPost now later view rIndex rComma ep =
     (let allowed = canComment now (safetyCounters (fst ep));
          e = (fst ep)\<lparr> safetyCounters := snd allowed \<rparr>;
          p = snd ep
      in if \<not> fst allowed then (e, p)
         else if li_duplicateSkip now (duplicateDetector e) p then (e, p)
         else li_composeAndRecord later view rIndex rComma (e, p))"

section \<open>LinkedIn: the engagement cycle\<close>

text \<open>\<open>findSeeMoreButtonsInPost\<close> with the single keyword \<open>'...more'\<close>.\<close>

definition li_matchesKeyword :: "clickable \<Rightarrow> bool" where
  "li_matchesKeyword el =
     (let textLower = toLowerCase (trim (cl_text el));
          ariaLabel = toLowerCase (case cl_ariaLabel el of None \<Rightarrow> [] | Some l \<Rightarrow> l)
      in str_includes textLower (toLowerCase ''...more'') \<or>
         str_includes ariaLabel (toLowerCase ''...more''))"

definition bumpSeeMore :: "engine \<Rightarrow> engine" where
  "bumpSeeMore e =
     e\<lparr> sessionStats := (sessionStats e)\<lparr> totalSeeMoreClicked := totalSeeMoreClicked (sessionStats e) + 1 \<rparr> \<rparr>"

definition li_clickSeeMoreOnPost :: "engine \<times> post \<Rightarrow> engine \<times> post" where
  "li_clickSeeMoreOnPost ep =
     (let e = fst ep; p = snd ep;
          visibleButtons =
            filter (\<lambda>ib. li_matchesKeyword (snd ib) \<and> cl_inViewport (snd ib) \<and>
                         \<not> truthy (cl_surferClicked (snd ib)))
              (enumerate 0 (clickables p))
      in case visibleButtons of
           [] \<Rightarrow> (e, p)
         | ib # rest \<Rightarrow>
             (log [Clicked (SeeMoreButton (fst ib))] (bumpSeeMore e),
              p\<lparr> clickables := (clickables p)[fst ib := (snd ib)\<lparr> cl_surferClicked := Some ''true'' \<rparr>] \<rparr>))"

text \<open>
  The posts of the page in document order. The scan keeps the positions of the posts in
  the viewport that carry no \<open>data-surfer-engaged\<close>.
\<close>

definition visibleUnengaged :: "post list \<Rightarrow> nat list" where
  "visibleUnengaged page =
     map fst (filter (\<lambda>ip. inViewport (snd ip) \<and> \<not> truthy (surferEngaged (snd ip))) (enumerate 0 page))"

definition markEngaged :: "nat \<Rightarrow> post list \<Rightarrow> post list" where
  "markEngaged i page = page[i := (page ! i)\<lparr> surferEngaged := Some ''true'' \<rparr>]"

definition scheduleNextCycle :: "engine \<Rightarrow> engine" where
  "scheduleNextCycle e = (if \<not> isActive e then e else e\<lparr> timerPending := True \<rparr>)"

text \<open>
  What the page does when the engine scrolls is not the engine's: one answer per scroll
  says whether the page was at its bottom before it, which of the known posts are in the
  viewport after it, and which posts the page has appended. The page leaves the
  attributes of known posts alone. A missing answer reads as the bottom of the page.
\<close>

record scroll_response =
  sr_atBottom :: bool
  sr_viewport :: "bool list"
  sr_loaded :: "post list"

definition applyScroll :: "scroll_response \<Rightarrow> post list \<Rightarrow> post list" where
  "applyScroll r page =
     map (\<lambda>ip. if fst ip < length (sr_viewport r)
                then (snd ip)\<lparr> inViewport := sr_viewport r ! fst ip \<rparr> else snd ip)
       (enumerate 0 page) @ sr_loaded r"

fun smartScrollUntilNewPost ::
  "nat \<Rightarrow> scroll_response list \<Rightarrow> engine \<times> post list \<Rightarrow> bool \<times> engine \<times> post list" where
  "smartScrollUntilNewPost 0 rs ep = (False, ep)"
| "smartScrollUntilNewPost (Suc n) [] ep = (False, ep)"
| "smartScrollUntilNewPost (Suc n) (r # rs) ep =
     (if sr_atBottom r then (False, ep)
      else (let e = log [ScrolledBy, Slept] (fst ep);
                page = applyScroll r (snd ep)
            in if visibleUnengaged page \<noteq> [] then (True, e, page)
               else smartScrollUntilNewPost n rs (e, page)))"

text \<open>The clock readings, random draws and page answers one cycle consumes.\<close>

record cycle_env =
  ce_now :: int
  ce_later :: int
  ce_likeRoll :: rat
  ce_commentRoll :: rat
  ce_rIndex :: rat
  ce_rComma :: rat
  ce_view :: comment_dom
  ce_scrolls :: "scroll_response list"

definition bumpViewed :: "engine \<Rightarrow> engine" where
  "bumpViewed e =
     e\<lparr> sessionStats := (sessionStats e)\<lparr> totalPostsViewed := totalPostsViewed (sessionStats e) + 1 \<rparr> \<rparr>"

text \<open>Steps 5 to 7 of \<open>engagementCycle\<close>: see-more, like and comment on the target post.\<close>

definition li_actOnPost :: "cycle_env \<Rightarrow> engine \<times> post \<Rightarrow> engine \<times> post" where
  "li_actOnPost env ep =
     (let ep = (if enableSeeMore (settings (fst ep))
                then (let r = li_clickSeeMoreOnPost ep in (log [Slept] (fst r), snd r))
                else ep);
          ep = (if enableAutoLike (settings (fst ep)) \<and>
                   ce_likeRoll env < of_int (likeProbability (settings (fst ep)))
                then (let r = li_likePost (ce_now env) (fst ep, likeButtons (snd ep))
                      in (log [Slept] (fst r), (snd ep)\<lparr> likeButtons := snd r \<rparr>))
                else ep);
          ep = (if enableAutoComment (settings (fst ep)) \<and>
                   ce_commentRoll env < of_int (commentProbability (settings (fst ep)))
                then (let r = li_commentPost (ce_now env) (ce_later env) (ce_view env)
                                (ce_rIndex env) (ce_rComma env) ep
                      in (log [Slept] (fst r), snd r))
                else ep)
      in ep)"

text \<open>Steps 3 to 8 of \<open>engagementCycle\<close>, on the target post at position \<open>i\<close>.\<close>

definition li_engage :: "cycle_env \<Rightarrow> nat \<Rightarrow> engine \<times> post list \<Rightarrow> engine \<times> post list" where
  "li_engage env i ep =
     (let e = fst ep; page = snd ep
      in if shouldSkipPost (settings e) (page ! i)
         then (scheduleNextCycle e, markEngaged i page)
         else (let e = (if \<not> fullyEngageable (page ! i) then log [ScrolledIntoView, Slept] e else e);
                   page = markEngaged i page;
                   e = bumpViewed e;
                   r = li_actOnPost env (e, page ! i)
               in (scheduleNextCycle (log [Slept] (fst r)), page[i := snd r])))"

definition li_engagementCycle :: "cycle_env \<Rightarrow> engine \<times> post list \<Rightarrow> engine \<times> post list" where
  "li_engagementCycle env ep =
     (if \<not> isActive (fst ep) then ep
      else (case visibleUnengaged (snd ep) of
              i # rest \<Rightarrow> li_engage env i ep
            | [] \<Rightarrow>
                (let r = smartScrollUntilNewPost 10 (ce_scrolls env) ep;
                     e = fst (snd r); page = snd (snd r)
                 in if \<not> fst r then (scheduleNextCycle (log [Slept] e), page)
                    else (case visibleUnengaged page of
                            [] \<Rightarrow> (scheduleNextCycle (log [Slept] e), page)
                          | i # rest \<Rightarrow> li_engage env i (e, page)))))"

text \<open>Cycle after cycle, each with its own readings.\<close>

fun li_cycles :: "cycle_env list \<Rightarrow> engine \<times> post list \<Rightarrow> engine \<times> post list" where
  "li_cycles [] ep = ep"
| "li_cycles (env # envs) ep = li_cycles envs (li_engagementCycle env ep)"

section \<open>Vocabulary of the claims\<close>

text \<open>An engine as its constructor leaves it, before anything is loaded from storage.\<close>

definition new_engine :: "string \<Rightarrow> surf_settings \<Rightarrow> int \<Rightarrow> engine" where
  "new_engine p defaults now =
     \<lparr> platform = p, isActive = False, timerPending = False, settings = defaults,
       sessionStats = zero_stats, safetyCounters = initial_counters now,
       duplicateDetector = new_detector, templateGenerator = new_generator,
       localStorage = empty_storage, syncSurfSettings = None, events = [] \<rparr>"

definition no_update :: settings_update where
  "no_update =
     \<lparr> new_scrollSpeedMin = None, new_scrollSpeedMax = None, new_enableAutoLike = None,
       new_likeDelay = None, new_likeProbability = None, new_enableAutoComment = None,
       new_commentDelay = None, new_commentProbability = None, new_enableSeeMore = None,
       new_seeMoreDelay = None, new_postEngagementDelay = None, new_skipCompanyPages = None,
       new_skipFriendActivities = None, new_timeFilterEnabled = None, new_maxPostAge = None \<rparr>"

definition plain_like_button :: like_button where
  "plain_like_button =
     \<lparr> lb_ariaLabel = Some ''Like'', lb_ariaPressed = Some ''false'', lb_surferLiked = None,
       lb_reactionsCount = False, lb_textContainer = False \<rparr>"

definition capped_counters :: counters where
  "capped_counters =
     \<lparr> hourlyComments = 0, dailyComments = 0, hourlyLikes = 30, dailyLikes = 30,
       lastHourReset = 1700000000000, lastDayReset = 1700000000000 \<rparr>"

text \<open>A LinkedIn post on which every name selector and the time indicator find nothing.\<close>

definition bare_post :: post where
  "bare_post =
     \<lparr> surferEngaged = None, inViewport = True, fullyEngageable = True, likeButtons = [],
       commentButton = Some \<lparr> cb_surferCommented = None \<rparr>, clickables = [],
       dataUrn = Some ''urn:li:activity:2'', nameTexts = [None, None, None, None, None, None],
       hiddenSpanTexts = [], descriptionText = Some ''Hello world'', subDescriptionText = None,
       actorDescriptionText = None, supplementaryText = None \<rparr>"

text \<open>
  The answers of the eight submit selectors of the LinkedIn engine, and of the five of the
  base class, inside a container without a submit control; and the LinkedIn answers inside
  a container whose \<open>button[aria-label*="Post"]\<close> is enabled.
\<close>

definition none8 :: "submit_button option list" where
  "none8 = [None, None, None, None, None, None, None, None]"

definition none5 :: "submit_button option list" where
  "none5 = [None, None, None, None, None]"

definition post8 :: "submit_button option list" where
  "post8 = [Some \<lparr> sb_id = 9, sb_disabled = False \<rparr>, None, None, None, None, None, None, None]"

text \<open>A visible \<open>div.ql-editor\<close> with \<open>contenteditable="true"\<close>, no submit control around it.\<close>

definition editable_area :: text_area where
  "editable_area =
     \<lparr> ta_id = 7, ta_inViewport = True, ta_offsetParent = True, ta_contentEditable = ''true'',
       ta_contenteditableAttr = Some ''true'', ta_tagName = ''DIV'', ta_width = 400, ta_height = 40,
       ta_top = 300, ta_bottom = 340, ta_distance = 120, ta_elementAtPoint = None,
       ta_ownSubmit = none8, ta_ancestorSubmit = [none8, none8, none8, none8, none8] \<rparr>"

text \<open>The same input with a submit control inside its second ancestor.\<close>

definition area_near_submit :: text_area where
  "area_near_submit = editable_area\<lparr> ta_ancestorSubmit := [none8, post8, post8, post8, post8] \<rparr>"

definition base_editable_area :: text_area where
  "base_editable_area = editable_area\<lparr> ta_ownSubmit := none5, ta_ancestorSubmit := [none5, none5, none5, none5, none5] \<rparr>"

text \<open>
  What the five input selectors of the LinkedIn engine find inside the post: the editor
  matches the first and the fourth. No submit control is in the post.
\<close>

definition view_without_submit :: comment_dom where
  "view_without_submit =
     \<lparr> cd_commentInput = False, cd_textAreas = [[editable_area], [], [], [editable_area], []],
       cd_focused = None, cd_scopeSubmit = none8, cd_viewportHeight = 800 \<rparr>"

definition view_with_submit :: comment_dom where
  "view_with_submit =
     \<lparr> cd_commentInput = False, cd_textAreas = [[area_near_submit], [], [], [area_near_submit], []],
       cd_focused = None, cd_scopeSubmit = post8, cd_viewportHeight = 800 \<rparr>"

text \<open>The same page for the six input selectors and five submit selectors of the base class.\<close>

definition base_view_without_submit :: comment_dom where
  "base_view_without_submit =
     \<lparr> cd_commentInput = False,
       cd_textAreas = [[base_editable_area], [], [], [base_editable_area], [], [base_editable_area]],
       cd_focused = None, cd_scopeSubmit = none5, cd_viewportHeight = 800 \<rparr>"

text \<open>A LinkedIn engine that commented, at 1700000000000, on a post whose author name was not found.\<close>

definition engine_after_unknown :: engine where
  "engine_after_unknown =
     (new_engine ''linkedin'' li_default_settings 1700000000000)
       \<lparr> duplicateDetector :=
           \<lparr> commentedUrls = [''linkedin://post/urn:li:activity:1''],
             commentedAuthors = [(''Unknown'', 1700000000000)],
             contentHashes = [] \<rparr> \<rparr>"

text \<open>A LinkedIn post whose time indicator reads four days, with a comment control and a like control.\<close>

definition old_post :: post where
  "old_post =
     bare_post\<lparr> subDescriptionText := Some '' 4d  '', likeButtons := [plain_like_button],
       dataUrn := Some ''urn:li:activity:3'' \<rparr>"

definition running_engine :: engine where
  "running_engine =
     (new_engine ''linkedin'' li_default_settings 1700000000000)
       \<lparr> isActive := True,
         settings := li_default_settings\<lparr> enableSeeMore := True, enableAutoLike := True,
                       likeProbability := 100, enableAutoComment := True, commentProbability := 100 \<rparr> \<rparr>"

definition example_env :: cycle_env where
  "example_env =
     \<lparr> ce_now = 1700000000001, ce_later = 1700000000002, ce_likeRoll = 0, ce_commentRoll = 0,
       ce_rIndex = 0, ce_rComma = 0, ce_view = view_with_submit, ce_scrolls = [] \<rparr>"

text \<open>Two posts are the same but for their place in the viewport.\<close>

definition sameButViewport :: "post \<Rightarrow> post \<Rightarrow> bool" where
  "sameButViewport p q \<longleftrightarrow> q = p\<lparr> inViewport := inViewport q \<rparr>"





text \<open>Lower case code point by code point, with no regard to the context.\<close>

definition lowerUnits :: "unicode_data \<Rightarrow> nat list \<Rightarrow> utf16" where
  "lowerUnits db cps = codePointsToString (concat (map (lowercase_mapping db) cps))"

text \<open>
  The entries of the Unicode Character Database for Basic Latin, the Latin-1 Supplement and
  the Greek letters from \<open>U+0391\<close> to \<open>U+03C9\<close>, which are the characters of the examples
  below; no other code point is given a mapping or a property here.
\<close>

definition unicode_excerpt :: unicode_data where
  "unicode_excerpt =
     \<lparr> lowercase_mapping = (\<lambda>c.
         if (0x41 \<le> c \<and> c \<le> 0x5A) \<or> (0xC0 \<le> c \<and> c \<le> 0xDE \<and> c \<noteq> 0xD7) \<or>
            (0x391 \<le> c \<and> c \<le> 0x3AB \<and> c \<noteq> 0x3A2)
         then [c + 0x20] else [c]),
       cased = (\<lambda>c.
         (0x41 \<le> c \<and> c \<le> 0x5A) \<or> (0x61 \<le> c \<and> c \<le> 0x7A) \<or> c = 0xAA \<or> c = 0xB5 \<or> c = 0xBA \<or>
         (0xC0 \<le> c \<and> c \<le> 0xFF \<and> c \<noteq> 0xD7 \<and> c \<noteq> 0xF7) \<or>
         (0x391 \<le> c \<and> c \<le> 0x3C9 \<and> c \<noteq> 0x3A2)),
       case_ignorable = (\<lambda>c. c \<in> set [0x27, 0x2E, 0x3A, 0x5E, 0x60, 0xA8, 0xAD, 0xAF, 0xB4, 0xB7, 0xB8]) \<rparr>"

definition example_urls :: "string list" where
  "example_urls = map (\<lambda>n. replicate (Suc n) CHR ''u'') [0..<10001]"

definition example_storage :: local_storage where
  "example_storage =
     \<lparr> stored_commentedUrls = Some example_urls,
       stored_commentedAuthors = Some [(''old author'', 1000), (''new author'', 1700000000000)],
       stored_contentHashes = Some [''-1051295698''],
       stored_lastCleanup = None, stored_safetyCounters = None \<rparr>"

section \<open>Properties of SafetyLimits\<close>

lemma checkResets_hourly_elapsed:
  "now - lastHourReset c > hourMs \<Longrightarrow>
     hourlyLikes (checkResets now c) = 0 \<and> hourlyComments (checkResets now c) = 0 \<and>
     lastHourReset (checkResets now c) = now"
  by (simp add: checkResets_def resetHourly_def resetDaily_def)

lemma checkResets_hourly_kept:
  "\<not> now - lastHourReset c > hourMs \<Longrightarrow>
     hourlyLikes (checkResets now c) = hourlyLikes c \<and>
     hourlyComments (checkResets now c) = hourlyComments c \<and>
     lastHourReset (checkResets now c) = lastHourReset c"
  by (simp add: checkResets_def resetHourly_def resetDaily_def)

lemma checkResets_daily_elapsed:
  "now - lastDayReset c > dayMs \<Longrightarrow>
     dailyLikes (checkResets now c) = 0 \<and> dailyComments (checkResets now c) = 0 \<and>
     lastDayReset (checkResets now c) = now"
  by (simp add: checkResets_def resetHourly_def resetDaily_def)

lemma checkResets_daily_kept:
  "\<not> now - lastDayReset c > dayMs \<Longrightarrow>
     dailyLikes (checkResets now c) = dailyLikes c \<and>
     dailyComments (checkResets now c) = dailyComments c \<and>
     lastDayReset (checkResets now c) = lastDayReset c"
  by (simp add: checkResets_def resetHourly_def resetDaily_def)

lemma canLike_eq:
  "canLike now c =
     (hourlyLikes (checkResets now c) < 30 \<and> dailyLikes (checkResets now c) < 200, checkResets now c)"
  by (simp add: canLike_def the_limits_def Let_def)

lemma canComment_eq:
  "canComment now c =
     (hourlyComments (checkResets now c) < 10 \<and> dailyComments (checkResets now c) < 50, checkResets now c)"
  by (simp add: canComment_def the_limits_def Let_def)

text \<open>
  Claim C3. \<open>canLike()\<close> (resp. \<open>canComment()\<close>) first reconciles expired windows: when more
  than one hour (resp. one day) has elapsed since the recorded window start, the hourly
  (resp. daily) counts become 0 and the window start becomes the current time, otherwise
  they are kept. It then answers true exactly when the hourly likes are under 30 and the
  daily likes under 200 (resp. comments under 10 and 50). Hence the answer is false while a
  counter sits at its cap inside its window, and true again, with that counter at 0, as soon
  as the window of the capped counter has elapsed (the other counter being under its cap
  or reset as well).
\<close>

theorem safety_limits_windows_and_caps:
  fixes now :: int and c :: counters
  defines "c' \<equiv> checkResets now c"
  shows
   "canLike now c = (hourlyLikes c' < 30 \<and> dailyLikes c' < 200, c') \<and>
    canComment now c = (hourlyComments c' < 10 \<and> dailyComments c' < 50, c') \<and>
    (now - lastHourReset c > 60 * 60 * 1000 \<longrightarrow>
       hourlyLikes c' = 0 \<and> hourlyComments c' = 0 \<and> lastHourReset c' = now) \<and>
    (\<not> now - lastHourReset c > 60 * 60 * 1000 \<longrightarrow>
       hourlyLikes c' = hourlyLikes c \<and> hourlyComments c' = hourlyComments c \<and>
       lastHourReset c' = lastHourReset c) \<and>
    (now - lastDayReset c > 24 * 60 * 60 * 1000 \<longrightarrow>
       dailyLikes c' = 0 \<and> dailyComments c' = 0 \<and> lastDayReset c' = now) \<and>
    (\<not> now - lastDayReset c > 24 * 60 * 60 * 1000 \<longrightarrow>
       dailyLikes c' = dailyLikes c \<and> dailyComments c' = dailyComments c \<and>
       lastDayReset c' = lastDayReset c) \<and>
    (hourlyLikes c \<ge> 30 \<and> \<not> now - lastHourReset c > 60 * 60 * 1000 \<longrightarrow> \<not> fst (canLike now c)) \<and>
    (dailyLikes c \<ge> 200 \<and> \<not> now - lastDayReset c > 24 * 60 * 60 * 1000 \<longrightarrow> \<not> fst (canLike now c)) \<and>
    (hourlyComments c \<ge> 10 \<and> \<not> now - lastHourReset c > 60 * 60 * 1000 \<longrightarrow> \<not> fst (canComment now c)) \<and>
    (dailyComments c \<ge> 50 \<and> \<not> now - lastDayReset c > 24 * 60 * 60 * 1000 \<longrightarrow> \<not> fst (canComment now c)) \<and>
    (now - lastHourReset c > 60 * 60 * 1000 \<and> dailyLikes c < 200 \<longrightarrow>
       fst (canLike now c) \<and> hourlyLikes (snd (canLike now c)) = 0) \<and>
    (now - lastDayReset c > 24 * 60 * 60 * 1000 \<and> hourlyLikes c < 30 \<longrightarrow>
       fst (canLike now c) \<and> dailyLikes (snd (canLike now c)) = 0) \<and>
    (now - lastHourReset c > 60 * 60 * 1000 \<and> now - lastDayReset c > 24 * 60 * 60 * 1000 \<longrightarrow>
       fst (canLike now c) \<and> fst (canComment now c) \<and>
       hourlyLikes c' = 0 \<and> dailyLikes c' = 0 \<and> hourlyComments c' = 0 \<and> dailyComments c' = 0) \<and>
    (now - lastHourReset c > 60 * 60 * 1000 \<and> dailyComments c < 50 \<longrightarrow>
       fst (canComment now c) \<and> hourlyComments (snd (canComment now c)) = 0) \<and>
    (now - lastDayReset c > 24 * 60 * 60 * 1000 \<and> hourlyComments c < 10 \<longrightarrow>
       fst (canComment now c) \<and> dailyComments (snd (canComment now c)) = 0)"
proof -
  have h: "hourMs = 60 * 60 * 1000" and d: "dayMs = 24 * 60 * 60 * 1000"
    by (simp_all add: hourMs_def dayMs_def)
  note he = checkResets_hourly_elapsed [of now c, unfolded h]
    and hk = checkResets_hourly_kept [of now c, unfolded h]
    and de = checkResets_daily_elapsed [of now c, unfolded d]
    and dk = checkResets_daily_kept [of now c, unfolded d]
  have hl: "hourlyLikes c < 30 \<Longrightarrow> hourlyLikes c' < 30"
    and hc: "hourlyComments c < 10 \<Longrightarrow> hourlyComments c' < 10"
    using he hk unfolding c'_def by (cases "now - lastHourReset c > 60 * 60 * 1000"; simp)+
  have dl: "dailyLikes c < 200 \<Longrightarrow> dailyLikes c' < 200"
    and dc: "dailyComments c < 50 \<Longrightarrow> dailyComments c' < 50"
    using de dk unfolding c'_def by (cases "now - lastDayReset c > 24 * 60 * 60 * 1000"; simp)+
  show ?thesis
    using he hk de dk hl hc dl dc unfolding canLike_eq canComment_eq c'_def
    by (simp add: c'_def)
qed

theorem safety_limits_windows_and_caps_witness:
  "fst (canLike 3600001 \<lparr> hourlyComments = 0, dailyComments = 0, hourlyLikes = 30, dailyLikes = 30,
                           lastHourReset = 0, lastDayReset = 0 \<rparr>) \<and>
   \<not> fst (canLike 3600000 \<lparr> hourlyComments = 0, dailyComments = 0, hourlyLikes = 30, dailyLikes = 30,
                           lastHourReset = 0, lastDayReset = 0 \<rparr>) \<and>
   \<not> fst (canLike 86400000 \<lparr> hourlyComments = 0, dailyComments = 0, hourlyLikes = 0, dailyLikes = 200,
                           lastHourReset = 86000000, lastDayReset = 0 \<rparr>) \<and>
   fst (canLike 86400001 \<lparr> hourlyComments = 0, dailyComments = 0, hourlyLikes = 0, dailyLikes = 200,
                           lastHourReset = 86000000, lastDayReset = 0 \<rparr>) \<and>
   \<not> fst (canComment 3600000 \<lparr> hourlyComments = 10, dailyComments = 10, hourlyLikes = 0, dailyLikes = 0,
                           lastHourReset = 0, lastDayReset = 0 \<rparr>) \<and>
   fst (canComment 3600001 \<lparr> hourlyComments = 10, dailyComments = 10, hourlyLikes = 0, dailyLikes = 0,
                           lastHourReset = 0, lastDayReset = 0 \<rparr>) \<and>
   \<not> fst (canComment 86400000 \<lparr> hourlyComments = 0, dailyComments = 50, hourlyLikes = 0, dailyLikes = 0,
                           lastHourReset = 86000000, lastDayReset = 0 \<rparr>) \<and>
   fst (canComment 86400001 \<lparr> hourlyComments = 0, dailyComments = 50, hourlyLikes = 0, dailyLikes = 0,
                           lastHourReset = 86000000, lastDayReset = 0 \<rparr>) \<and>
   fst (canLike 86400001 \<lparr> hourlyComments = 10, dailyComments = 50, hourlyLikes = 30, dailyLikes = 200,
                           lastHourReset = 0, lastDayReset = 0 \<rparr>)"
  using
    safety_limits_windows_and_caps [of 3600001 "\<lparr> hourlyComments = 0, dailyComments = 0, hourlyLikes = 30, dailyLikes = 30, lastHourReset = 0, lastDayReset = 0 \<rparr>"]
    safety_limits_windows_and_caps [of 3600000 "\<lparr> hourlyComments = 0, dailyComments = 0, hourlyLikes = 30, dailyLikes = 30, lastHourReset = 0, lastDayReset = 0 \<rparr>"]
    safety_limits_windows_and_caps [of 86400000 "\<lparr> hourlyComments = 0, dailyComments = 0, hourlyLikes = 0, dailyLikes = 200, lastHourReset = 86000000, lastDayReset = 0 \<rparr>"]
    safety_limits_windows_and_caps [of 86400001 "\<lparr> hourlyComments = 0, dailyComments = 0, hourlyLikes = 0, dailyLikes = 200, lastHourReset = 86000000, lastDayReset = 0 \<rparr>"]
    safety_limits_windows_and_caps [of 3600000 "\<lparr> hourlyComments = 10, dailyComments = 10, hourlyLikes = 0, dailyLikes = 0, lastHourReset = 0, lastDayReset = 0 \<rparr>"]
    safety_limits_windows_and_caps [of 3600001 "\<lparr> hourlyComments = 10, dailyComments = 10, hourlyLikes = 0, dailyLikes = 0, lastHourReset = 0, lastDayReset = 0 \<rparr>"]
    safety_limits_windows_and_caps [of 86400000 "\<lparr> hourlyComments = 0, dailyComments = 50, hourlyLikes = 0, dailyLikes = 0, lastHourReset = 86000000, lastDayReset = 0 \<rparr>"]
    safety_limits_windows_and_caps [of 86400001 "\<lparr> hourlyComments = 0, dailyComments = 50, hourlyLikes = 0, dailyLikes = 0, lastHourReset = 86000000, lastDayReset = 0 \<rparr>"]
    safety_limits_windows_and_caps [of 86400001 "\<lparr> hourlyComments = 10, dailyComments = 50, hourlyLikes = 30, dailyLikes = 200, lastHourReset = 0, lastDayReset = 0 \<rparr>"]
  by simp

section \<open>The hash on UTF-16 strings\<close>







lemma toLowercase_no_sigma:
  "0x03A3 \<notin> set cps \<Longrightarrow> toLowercase db preceding cps = concat (map (lowercase_mapping db) cps)"
  by (induction cps arbitrary: preceding) simp_all





lemma lowerUnits_Nil: "lowerUnits db [] = []"
  by (simp add: lowerUnits_def codePointsToString_def)






section \<open>Latin-1 texts as JavaScript strings\<close>

text \<open>
  On a Latin-1 text the functions on code units are the Latin-1 ones: no surrogate and no
  capital sigma occurs, so lower-casing goes character by character, and white space,
  trimming and the hash rounds are the same. The Unicode data has to give the Latin-1
  characters their lowercase mapping, as the excerpt used in the examples does.
\<close>

lemma of_char_lt: "(of_char c :: nat) < 256"
proof -
  have "(of_char c :: nat) = of_char c mod 256" by (simp add: of_char_mod_256)
  also have "\<dots> < 256" by simp
  finally show ?thesis .
qed

lemma of_char_lt16: "(of_char c :: nat) < 65536"
  using of_char_lt [of c] by linarith

lemma unat_js: "unat (of_nat (of_char c) :: 16 word) = of_char c"
  using of_char_lt16 [of c] by (simp add: unat_of_nat)

lemma ucast_js: "(ucast (of_nat (of_char c) :: 16 word) :: 32 word) = of_nat (of_char c)"
  using of_char_lt16 [of c] by (simp add: unsigned_of_nat take_bit_nat_eq_self)

lemma not_surrogate_js:
  "\<not> isLeadingSurrogate (of_nat (of_char c))"
proof -
  have "\<not> (55296::nat) \<le> of_char c" using of_char_lt [of c] by linarith
  then show ?thesis by (simp add: isLeadingSurrogate_def word_le_nat_alt unat_js)
qed

lemma stringToCodePoints_js: "stringToCodePoints (js s) = map of_char s"
proof (induction s rule: induct_list012)
  case 1
  then show ?case by (simp add: js_def)
next
  case (2 x)
  then show ?case by (simp add: js_def unat_js)
next
  case (3 x y zs)
  then show ?case by (simp add: js_def unat_js not_surrogate_js)
qed

lemma isWhiteSpace_js: "isWhiteSpace_utf16 (of_nat (of_char c)) = isWhiteSpace c"
proof -
  have inj: "(c = d) = ((of_char c :: nat) = of_char d)" for d
    by (simp add: of_char_eq_iff)
  have 1: "isWhiteSpace c \<longleftrightarrow> (of_char c :: nat) \<in> {9, 10, 11, 12, 13, 32, 160}"
    by (simp add: isWhiteSpace_def whiteSpaceChars_def inj)
  have 2: "isWhiteSpace_utf16 (of_nat (of_char c)) \<longleftrightarrow>
      (of_char c :: nat) \<in> set (map unat whiteSpaceUnits)"
    by (simp add: isWhiteSpace_utf16_def whiteSpaceUnits_def word_unat_eq_iff unat_js)
  have 3: "n < 256 \<Longrightarrow> n \<in> set (map unat whiteSpaceUnits) \<longleftrightarrow> n \<in> {9, 10, 11, 12, 13, 32, 160}"
    for n :: nat
    by (auto simp: whiteSpaceUnits_def)
  show ?thesis
    unfolding 1 2 by (rule 3 [OF of_char_lt])
qed

lemma sigma_not_latin1: "(0x03A3::nat) \<notin> set (map of_char s)"
proof
  assume "(0x03A3::nat) \<in> set (map of_char s)"
  then obtain c where "(of_char c :: nat) = 0x03A3" by auto
  with of_char_lt [of c] show False by simp
qed

lemma utf16EncodeCodePoint_latin1: "utf16EncodeCodePoint (of_char c) = [of_nat (of_char c)]"
proof -
  have "(of_char c :: nat) \<le> 65535" using of_char_lt [of c] by linarith
  then show ?thesis by (simp add: utf16EncodeCodePoint_def)
qed

lemma codePointsToString_latin1:
  "codePointsToString (map of_char s) = js s"
  by (induction s) (simp_all add: codePointsToString_def utf16EncodeCodePoint_latin1 js_def)

lemma latin1Mapping_char:
  "latin1Mapping db \<Longrightarrow> lowercase_mapping db (of_char c) = [of_char (toLowerCase_char c)]"
  by (simp add: latin1Mapping_def list_all_iff enum_UNIV)

lemma toLowerCase_utf16_js:
  assumes "latin1Mapping db"
  shows "toLowerCase_utf16 db (js s) = js (toLowerCase s)"
proof -
  have "concat (map (lowercase_mapping db) (map of_char s)) = map of_char (toLowerCase s)"
    by (induction s) (simp_all add: toLowerCase_def latin1Mapping_char [OF assms])
  then show ?thesis
    by (simp add: toLowerCase_utf16_def stringToCodePoints_js
        toLowercase_no_sigma [OF sigma_not_latin1] codePointsToString_latin1)
qed

lemma dropWhile_js: "dropWhile isWhiteSpace_utf16 (js s) = js (dropWhile isWhiteSpace s)"
  by (induction s) (simp_all add: js_def isWhiteSpace_js)

lemma collapseWhitespace_js: "collapseWhitespace_utf16 (js s) = js (collapseWhitespace s)"
proof (induction s rule: collapseWhitespace.induct)
  case 1
  then show ?case by (simp add: js_def)
next
  case (2 c cs)
  show ?case
  proof (cases "isWhiteSpace c")
    case True
    with 2 have "collapseWhitespace_utf16 (js (dropWhile isWhiteSpace cs)) =
        js (collapseWhitespace (dropWhile isWhiteSpace cs))" by simp
    with True show ?thesis
      using dropWhile_js [of cs] by (simp add: js_def isWhiteSpace_js)
  next
    case False
    with 2 have "collapseWhitespace_utf16 (js cs) = js (collapseWhitespace cs)" by simp
    with False show ?thesis by (simp add: js_def isWhiteSpace_js)
  qed
qed

lemma rev_js: "rev (js s) = js (rev s)"
  by (simp add: js_def rev_map)

lemma trim_js: "trim_utf16 (js s) = js (trim s)"
  by (simp add: trim_utf16_def trim_def dropWhile_js rev_js)

lemma take_js: "take n (js s) = js (take n s)"
  by (simp add: js_def take_map)

lemma foldl_hashStep_js: "foldl hashStep_utf16 h (js s) = foldl hashStep h s"
  by (induction s arbitrary: h) (simp_all add: js_def hashStep_utf16_def hashStep_def ucast_js)

lemma simpleHash_utf16_latin1:
  "latin1Mapping db \<Longrightarrow> simpleHash_utf16 db (js s) = js (simpleHash s)"
  by (simp add: simpleHash_utf16_def simpleHash_def toLowerCase_utf16_js collapseWhitespace_js
      trim_js take_js foldl_hashStep_js)

lemma upperChars_codes:
  "map of_char upperChars = [65..<91] @ [192..<215] @ [216..<(223::nat)]"
  by (simp add: upperChars_def upt_rec_numeral)

lemma upper_iff:
  "c \<in> set upperChars \<longleftrightarrow>
     (0x41 \<le> (of_char c :: nat) \<and> (of_char c :: nat) \<le> 0x5A) \<or>
     (0xC0 \<le> (of_char c :: nat) \<and> (of_char c :: nat) \<le> 0xDE \<and> (of_char c :: nat) \<noteq> 0xD7)"
proof -
  have "c \<in> set upperChars \<longleftrightarrow> (of_char c :: nat) \<in> of_char ` set upperChars"
    by (auto simp: of_char_eq_iff)
  also have "of_char ` set upperChars = set (map of_char upperChars :: nat list)" by simp
  finally show ?thesis unfolding upperChars_codes by (auto simp del: upt_rec_numeral)
qed

lemma upper_lower: "list_all (\<lambda>c. (of_char (toLowerCase_char c) :: nat) = of_char c + 0x20) upperChars"
  unfolding upperChars_def
  by (simp add: toLowerCase_char_def upperChars_def lowerChars_def)

lemma not_upper_same: "c \<notin> set upperChars \<Longrightarrow> toLowerCase_char c = c"
proof -
  assume a: "c \<notin> set upperChars"
  have len: "length upperChars = length lowerChars"
    by (simp add: upperChars_def lowerChars_def)
  from a have "c \<notin> set (map fst (zip upperChars lowerChars))"
    by (simp only: map_fst_zip [OF len] not_False_eq_True)
  then have "map_of (zip upperChars lowerChars) c = None"
    by (simp only: map_of_eq_None_iff set_map not_False_eq_True)
  then show ?thesis by (simp add: toLowerCase_char_def)
qed

lemma of_char_toLowerCase_char:
  "(of_char (toLowerCase_char c) :: nat) =
     (if (0x41 \<le> (of_char c :: nat) \<and> (of_char c :: nat) \<le> 0x5A) \<or>
         (0xC0 \<le> (of_char c :: nat) \<and> (of_char c :: nat) \<le> 0xDE \<and> (of_char c :: nat) \<noteq> 0xD7)
      then of_char c + 0x20 else of_char c)"
proof (cases "c \<in> set upperChars")
  case True
  with upper_lower have "(of_char (toLowerCase_char c) :: nat) = of_char c + 0x20"
    by (simp add: list_all_iff)
  with True upper_iff [of c] show ?thesis by simp
next
  case False
  with not_upper_same [OF False] upper_iff [of c] show ?thesis by simp
qed

lemma latin1Mapping_excerpt: "latin1Mapping unicode_excerpt"
proof -
  have e: "n < 256 \<Longrightarrow> lowercase_mapping unicode_excerpt n =
      [if (0x41 \<le> n \<and> n \<le> 0x5A) \<or> (0xC0 \<le> n \<and> n \<le> 0xDE \<and> n \<noteq> 0xD7) then n + 0x20 else n]" for n
    by (simp add: unicode_excerpt_def)
  have "lowercase_mapping unicode_excerpt (of_char c) = [of_char (toLowerCase_char c)]" for c
    unfolding e [OF of_char_lt] of_char_toLowerCase_char by simp
  then show ?thesis by (simp add: latin1Mapping_def list_all_iff)
qed

section \<open>Properties of DuplicateDetector\<close>















lemma foldl_Set_add_distinct:
  "distinct (acc @ xs) \<Longrightarrow> foldl (\<lambda>s x. Set_add x s) acc xs = acc @ xs"
  by (induction xs arbitrary: acc) (simp_all add: Set_add_def)

lemma new_Set_distinct: "distinct xs \<Longrightarrow> new_Set xs = xs"
  using foldl_Set_add_distinct [of "[]" xs] by (simp add: new_Set_def)

lemma update_fresh: "k \<notin> fst ` set al \<Longrightarrow> AList.update k v al = al @ [(k, v)]"
  by (induction al) auto

lemma foldl_update_distinct:
  "distinct (map fst (acc @ es)) \<Longrightarrow> foldl (\<lambda>m (k, v). AList.update k v m) acc es = acc @ es"
proof (induction es arbitrary: acc)
  case Nil
  then show ?case by simp
next
  case (Cons e es)
  obtain k v where e: "e = (k, v)" by (cases e)
  from Cons.prems e have "k \<notin> fst ` set acc" by auto
  then have "AList.update k v acc = acc @ [(k, v)]" by (rule update_fresh)
  moreover from Cons.prems e have "distinct (map fst ((acc @ [(k, v)]) @ es))" by simp
  ultimately show ?case using Cons.IH [of "acc @ [(k, v)]"] e by simp
qed

lemma new_Map_distinct: "distinct (map fst es) \<Longrightarrow> new_Map es = es"
  using foldl_update_distinct [of "[]" es] by (simp add: new_Map_def)

lemma new_Set_slice_last: "distinct xs \<Longrightarrow> new_Set (slice_last n xs) = slice_last n xs"
  by (simp add: new_Set_distinct slice_last_def)

text \<open>
  Claim C8. With 10,001 stored URLs and a \<open>lastCleanup\<close> more than 7 days old (or
  absent), loading the detector runs \<open>cleanup()\<close>: exactly 5,000 URLs remain, the last
  5,000 of the stored order, and they are what is written back. The same load drops the
  author entries older than 7 days and cuts a content-hash store of more than 10,000
  entries to its last 5,000, leaving a smaller one as it is.
\<close>

theorem weekly_cleanup_on_load:
  fixes d :: duplicate_detector and st :: local_storage and nowTest nowCleanup nowStamp :: int
  assumes "stored_commentedUrls st = Some us" and "distinct us" and "length us = 10001"
    and "nowTest - (case stored_lastCleanup st of None \<Rightarrow> 0 | Some t \<Rightarrow> t) > 7 * 24 * 60 * 60 * 1000"
  defines "r \<equiv> dd_loadFromStorage nowTest nowCleanup nowStamp (d, st)"
  shows
    "commentedUrls (fst r) = drop 5001 us \<and> length (commentedUrls (fst r)) = 5000 \<and>
     stored_commentedUrls (snd r) = Some (drop 5001 us) \<and>
     stored_lastCleanup (snd r) = Some nowStamp \<and>
     (\<forall>es. stored_commentedAuthors st = Some es \<and> distinct (map fst es) \<longrightarrow>
        commentedAuthors (fst r) =
          filter (\<lambda>(author, timestamp). \<not> timestamp < nowCleanup - 7 * 24 * 60 * 60 * 1000) es) \<and>
     (\<forall>hs. stored_contentHashes st = Some hs \<and> distinct hs \<longrightarrow>
        contentHashes (fst r) = (if length hs > 10000 then drop (length hs - 5000) hs else hs))"
proof -
  have w: "nowTest - (case stored_lastCleanup st of None \<Rightarrow> 0 | Some t \<Rightarrow> t) > oneWeekMs"
    using assms(4) by (simp add: oneWeekMs_def)
  have su: "new_Set (slice_last 5000 us) = drop 5001 us"
    using assms(2,3) by (simp add: new_Set_slice_last) (simp add: slice_last_def)
  have u: "commentedUrls (fst r) = drop 5001 us \<and> stored_commentedUrls (snd r) = Some (drop 5001 us) \<and>
      stored_lastCleanup (snd r) = Some nowStamp"
    using w su assms(3)
    by (simp add: r_def dd_loadFromStorage_def cleanup_def dd_saveToStorage_def Let_def
        assms(1) new_Set_distinct [OF assms(2)] split: option.splits)
  have a: "commentedAuthors (fst r) =
      filter (\<lambda>(author, timestamp). \<not> timestamp < nowCleanup - 7 * 24 * 60 * 60 * 1000) es"
    if "stored_commentedAuthors st = Some es" and "distinct (map fst es)" for es
    using w that
    by (simp add: r_def dd_loadFromStorage_def cleanup_def Let_def new_Map_distinct
        split: option.splits)
  have h: "contentHashes (fst r) = (if length hs > 10000 then drop (length hs - 5000) hs else hs)"
    if "stored_contentHashes st = Some hs" and "distinct hs" for hs
  proof -
    have sh: "new_Set (slice_last 5000 hs) = drop (length hs - 5000) hs"
      using that(2) by (simp add: new_Set_slice_last) (simp add: slice_last_def)
    show ?thesis
      using w that sh
      by (simp add: r_def dd_loadFromStorage_def cleanup_def Let_def new_Set_distinct
          split: option.splits)
  qed
  from u assms(3) have l: "length (commentedUrls (fst r)) = 5000" by simp
  from u l a h show ?thesis by blast
qed

lemma example_urls_distinct: "distinct example_urls"
proof -
  have "inj_on (\<lambda>n. replicate (Suc n) CHR ''u'') (set [0..<10001])"
    by (rule inj_onI) (drule arg_cong [where f = length], simp)
  then show ?thesis
    unfolding example_urls_def by (simp only: distinct_map distinct_upt simp_thms)
qed

theorem weekly_cleanup_on_load_witness:
  "length (commentedUrls (fst (dd_loadFromStorage 1700000000000 1700000000001 1700000000002
      (new_detector, example_storage)))) = 5000 \<and>
   commentedUrls (fst (dd_loadFromStorage 1700000000000 1700000000001 1700000000002
      (new_detector, example_storage))) = drop 5001 example_urls \<and>
   commentedAuthors (fst (dd_loadFromStorage 1700000000000 1700000000001 1700000000002
      (new_detector, example_storage))) = [(''new author'', 1700000000000)] \<and>
   contentHashes (fst (dd_loadFromStorage 1700000000000 1700000000001 1700000000002
      (new_detector, example_storage))) = [''-1051295698'']"
proof -
  let ?r = "dd_loadFromStorage 1700000000000 1700000000001 1700000000002 (new_detector, example_storage)"
  have 1: "stored_commentedUrls example_storage = Some example_urls"
    and 4: "stored_commentedAuthors example_storage = Some [(''old author'', 1000), (''new author'', 1700000000000)]"
    and 6: "stored_contentHashes example_storage = Some [''-1051295698'']"
    by (simp_all add: example_storage_def)
  have 3: "length example_urls = 10001" by (simp add: example_urls_def)
  have 5: "distinct (map fst [(''old author'', 1000::int), (''new author'', 1700000000000)])" by simp
  have 7: "distinct [''-1051295698'']" by simp
  have 8: "1700000000000 - (case stored_lastCleanup example_storage of None \<Rightarrow> 0 | Some t \<Rightarrow> t)
      > 7 * 24 * 60 * 60 * 1000"
    by (simp add: example_storage_def)
  note T = weekly_cleanup_on_load [OF 1 example_urls_distinct 3 8, of 1700000000001 1700000000002 new_detector]
  from T have u: "commentedUrls (fst ?r) = drop 5001 example_urls" "length (commentedUrls (fst ?r)) = 5000"
    by blast+
  from T 4 5 have "commentedAuthors (fst ?r) =
      filter (\<lambda>(author, timestamp). \<not> timestamp < (1700000000001::int) - 7 * 24 * 60 * 60 * 1000)
        [(''old author'', 1000), (''new author'', 1700000000000)]"
    by blast
  then have a: "commentedAuthors (fst ?r) = [(''new author'', 1700000000000)]" by simp
  from T 6 7 have "contentHashes (fst ?r) =
      (if length [''-1051295698''] > 10000
       then drop (length [''-1051295698''] - 5000) [''-1051295698''] else [''-1051295698''])"
    by blast
  then have h: "contentHashes (fst ?r) = [''-1051295698'']" by simp
  from u a h show ?thesis by blast
qed

section \<open>Properties of TemplateGenerator\<close>

text \<open>
  Claim C9. Whatever the comma draw, \<open>processTemplate\<close> turns
  \<open>"Hi {author_first}{comma} thanks"\<close> with author \<open>"Jane Doe"\<close> into \<open>"Hi Jane thanks"\<close>
  or \<open>"Hi Jane, thanks"\<close> (the strings that match \<open>/^Hi Jane,? thanks$/\<close>), and with an
  empty author name into \<open>"Hi  thanks"\<close> or \<open>"Hi , thanks"\<close>;
  \<open>extractFirstName("  Jane   Doe ")\<close> is \<open>"Jane"\<close> and \<open>extractFirstName("")\<close> is \<open>""\<close>.
\<close>

theorem processTemplate_examples:
  "processTemplate r ''Hi {author_first}{comma} thanks'' (Some ''Jane Doe'') =
     (if r > 1 / 2 then ''Hi Jane, thanks'' else ''Hi Jane thanks'') \<and>
   processTemplate r ''Hi {author_first}{comma} thanks'' (Some ''Jane Doe'')
     \<in> {''Hi Jane thanks'', ''Hi Jane, thanks''} \<and>
   processTemplate r ''Hi {author_first}{comma} thanks'' (Some []) =
     (if r > 1 / 2 then ''Hi , thanks'' else ''Hi  thanks'') \<and>
   processTemplate r ''Hi {author_first}{comma} thanks'' (Some [])
     \<in> {''Hi  thanks'', ''Hi , thanks''} \<and>
   extractFirstName ''  Jane   Doe '' = ''Jane'' \<and>
   extractFirstName [] = []"
proof -
  have f1: "extractFirstName ''Jane Doe'' = ''Jane''" by code_simp
  have f2: "extractFirstName [] = []" by code_simp
  have f3: "extractFirstName ''  Jane   Doe '' = ''Jane''" by code_simp
  have i1: "str_includes ''Hi {author_first}{comma} thanks'' ''{author_first}''" by code_simp
  have r1: "replaceAll ''{author_first}'' ''Jane'' ''Hi {author_first}{comma} thanks'' = ''Hi Jane{comma} thanks''"
    by code_simp
  have r2: "replaceAll ''{author_first}'' [] ''Hi {author_first}{comma} thanks'' = ''Hi {comma} thanks''"
    by code_simp
  have i2: "str_includes ''Hi Jane{comma} thanks'' ''{comma}''" by code_simp
  have i3: "str_includes ''Hi {comma} thanks'' ''{comma}''" by code_simp
  have c1: "replaceAll ''{comma}'' '','' ''Hi Jane{comma} thanks'' = ''Hi Jane, thanks''" by code_simp
  have c2: "replaceAll ''{comma}'' [] ''Hi Jane{comma} thanks'' = ''Hi Jane thanks''" by code_simp
  have c3: "replaceAll ''{comma}'' '','' ''Hi {comma} thanks'' = ''Hi , thanks''" by code_simp
  have c4: "replaceAll ''{comma}'' [] ''Hi {comma} thanks'' = ''Hi  thanks''" by code_simp
  have q1: "processTemplate r ''Hi {author_first}{comma} thanks'' (Some ''Jane Doe'') =
     replaceAll ''{comma}'' (if r > 1 / 2 then '','' else []) ''Hi Jane{comma} thanks''"
    by (simp only: processTemplate_def Let_def i1 i2 f1 r1 option.case list.distinct if_False if_True)
  have q2: "processTemplate r ''Hi {author_first}{comma} thanks'' (Some []) =
     replaceAll ''{comma}'' (if r > 1 / 2 then '','' else []) ''Hi {comma} thanks''"
    by (simp only: processTemplate_def Let_def i1 i3 f2 r2 option.case if_False if_True)
  have p1: "processTemplate r ''Hi {author_first}{comma} thanks'' (Some ''Jane Doe'') =
     (if r > 1 / 2 then ''Hi Jane, thanks'' else ''Hi Jane thanks'')"
    unfolding q1 by (cases "r > 1 / 2") (simp_all only: c1 c2 if_True if_False)
  have p2: "processTemplate r ''Hi {author_first}{comma} thanks'' (Some []) =
     (if r > 1 / 2 then ''Hi , thanks'' else ''Hi  thanks'')"
    unfolding q2 by (cases "r > 1 / 2") (simp_all only: c3 c4 if_True if_False)
  show ?thesis unfolding p1 p2 using f2 f3 by simp
qed

section \<open>Settings updates\<close>

lemma spread_settings_speed:
  "scrollSpeedMin (spread_settings s u) = (case new_scrollSpeedMin u of None \<Rightarrow> scrollSpeedMin s | Some v \<Rightarrow> v)"
  "scrollSpeedMax (spread_settings s u) = (case new_scrollSpeedMax u of None \<Rightarrow> scrollSpeedMax s | Some v \<Rightarrow> v)"
  by (simp_all add: spread_settings_def spread_key_def)

text \<open>
  Claim C1 as stated fails: an engine stores the merged record and reconciles nothing.
  Starting from the defaults (2000, 4000), a message carrying \<open>scrollSpeedMin = 5000\<close> and
  \<open>scrollSpeedMax = 3000\<close> leaves the engine with \<open>scrollSpeedMin = 5000\<close> and
  \<open>scrollSpeedMax = 3000\<close>: the maximum is not raised.
\<close>

theorem updateSettings_keeps_violation:
  "scrollSpeedMin (settings (onUpdateSettings
       (no_update\<lparr> new_scrollSpeedMin := Some 5000, new_scrollSpeedMax := Some 3000 \<rparr>)
       (new_engine ''linkedin'' li_default_settings 1700000000000))) = 5000 \<and>
   scrollSpeedMax (settings (onUpdateSettings
       (no_update\<lparr> new_scrollSpeedMin := Some 5000, new_scrollSpeedMax := Some 3000 \<rparr>)
       (new_engine ''linkedin'' li_default_settings 1700000000000))) = 3000 \<and>
   \<not> scrollSpeedMin (settings (onUpdateSettings
       (no_update\<lparr> new_scrollSpeedMin := Some 5000, new_scrollSpeedMax := Some 3000 \<rparr>)
       (new_engine ''linkedin'' li_default_settings 1700000000000)))
     \<le> scrollSpeedMax (settings (onUpdateSettings
       (no_update\<lparr> new_scrollSpeedMin := Some 5000, new_scrollSpeedMax := Some 3000 \<rparr>)
       (new_engine ''linkedin'' li_default_settings 1700000000000)))"
  by (simp add: onUpdateSettings_def saveSettings_def spread_settings_speed no_update_def)

text \<open>
  Claim C1, amended. After an \<open>updateSettings\<close> message the engine's settings are the
  previous ones overwritten key by key with the keys the message carries, and that record
  is what is saved; nothing is reconciled. So \<open>scrollSpeedMin \<le> scrollSpeedMax\<close> holds
  afterwards when the message carries both speeds in order, and when it carries neither and
  the invariant held before.
\<close>

theorem updateSettings_merges:
  "settings (onUpdateSettings u e) = spread_settings (settings e) u \<and>
   syncSurfSettings (onUpdateSettings u e) = Some (spread_settings (settings e) u) \<and>
   scrollSpeedMin (settings (onUpdateSettings u e)) =
     (case new_scrollSpeedMin u of None \<Rightarrow> scrollSpeedMin (settings e) | Some v \<Rightarrow> v) \<and>
   scrollSpeedMax (settings (onUpdateSettings u e)) =
     (case new_scrollSpeedMax u of None \<Rightarrow> scrollSpeedMax (settings e) | Some v \<Rightarrow> v) \<and>
   (\<forall>a b. new_scrollSpeedMin u = Some a \<and> new_scrollSpeedMax u = Some b \<and> a \<le> b \<longrightarrow>
      scrollSpeedMin (settings (onUpdateSettings u e)) \<le> scrollSpeedMax (settings (onUpdateSettings u e))) \<and>
   (new_scrollSpeedMin u = None \<and> new_scrollSpeedMax u = None \<and>
      scrollSpeedMin (settings e) \<le> scrollSpeedMax (settings e) \<longrightarrow>
      scrollSpeedMin (settings (onUpdateSettings u e)) \<le> scrollSpeedMax (settings (onUpdateSettings u e)))"
  by (auto simp: onUpdateSettings_def saveSettings_def spread_settings_speed)

theorem updateSettings_merges_witness:
  "scrollSpeedMin (settings (onUpdateSettings
       (no_update\<lparr> new_scrollSpeedMin := Some 1000, new_scrollSpeedMax := Some 3000 \<rparr>)
       (new_engine ''linkedin'' li_default_settings 1700000000000)))
     \<le> scrollSpeedMax (settings (onUpdateSettings
       (no_update\<lparr> new_scrollSpeedMin := Some 1000, new_scrollSpeedMax := Some 3000 \<rparr>)
       (new_engine ''linkedin'' li_default_settings 1700000000000))) \<and>
   scrollSpeedMin (settings (onUpdateSettings no_update
       (new_engine ''linkedin'' li_default_settings 1700000000000)))
     \<le> scrollSpeedMax (settings (onUpdateSettings no_update
       (new_engine ''linkedin'' li_default_settings 1700000000000)))"
proof -
  let ?e = "new_engine ''linkedin'' li_default_settings 1700000000000"
  let ?u = "no_update\<lparr> new_scrollSpeedMin := Some 1000, new_scrollSpeedMax := Some 3000 \<rparr>"
  have a: "new_scrollSpeedMin ?u = Some 1000 \<and> new_scrollSpeedMax ?u = Some 3000 \<and> (1000::int) \<le> 3000"
    by (simp add: no_update_def)
  have b: "new_scrollSpeedMin no_update = None \<and> new_scrollSpeedMax no_update = None \<and>
      scrollSpeedMin (settings ?e) \<le> scrollSpeedMax (settings ?e)"
    by (simp add: no_update_def new_engine_def li_default_settings_def base_default_settings_def)
  from updateSettings_merges [of ?u ?e] a
  have 1: "scrollSpeedMin (settings (onUpdateSettings ?u ?e)) \<le> scrollSpeedMax (settings (onUpdateSettings ?u ?e))"
    by blast
  from updateSettings_merges [of no_update ?e] b
  have 2: "scrollSpeedMin (settings (onUpdateSettings no_update ?e))
      \<le> scrollSpeedMax (settings (onUpdateSettings no_update ?e))"
    by blast
  from 1 2 show ?thesis by blast
qed

section \<open>Template updates\<close>

lemma base_onUpdateTemplates_guard:
  "templateGenerator (base_onUpdateTemplates msgPlatform ts e) =
     (if msgPlatform = Some (platform e) then updateTemplates ts (templateGenerator e)
      else templateGenerator e)"
  by (simp add: base_onUpdateTemplates_def)

lemma li_fb_onUpdateTemplates_unguarded:
  "templateGenerator (li_onUpdateTemplates msgPlatform ts e) = updateTemplates ts (templateGenerator e)"
  "templateGenerator (fb_onUpdateTemplates msgPlatform ts e) = updateTemplates ts (templateGenerator e)"
  by (simp_all add: li_onUpdateTemplates_def fb_onUpdateTemplates_def)

text \<open>
  Claim C7 at a message for another platform. The base engine (here with platform
  \<open>twitter\<close>) ignores a message named \<open>facebook\<close>; the LinkedIn engine replaces its
  templates with those of a message named \<open>facebook\<close>, and the Facebook engine with those
  of a message named \<open>linkedin\<close>.
\<close>

theorem updateTemplates_platform_mismatch:
  "templates (templateGenerator (base_onUpdateTemplates (Some ''facebook'') (Some [''Nice one''])
       (new_engine ''twitter'' base_default_settings 1700000000000))) = [] \<and>
   templates (templateGenerator (li_onUpdateTemplates (Some ''facebook'') (Some [''Nice one''])
       (new_engine ''linkedin'' li_default_settings 1700000000000))) = [''Nice one''] \<and>
   templates (templateGenerator (fb_onUpdateTemplates (Some ''linkedin'') (Some [''Nice one''])
       (new_engine ''facebook'' base_default_settings 1700000000000))) = [''Nice one'']"
proof -
  have t: "trim ''Nice one'' = ''Nice one''" by code_simp
  show ?thesis
    by (simp add: base_onUpdateTemplates_def li_onUpdateTemplates_def fb_onUpdateTemplates_def
        new_engine_def new_generator_def updateTemplates_def setTemplates_def t)
qed

section \<open>The like action\<close>

lemma guardedLike_denied:
  assumes "isNotLiked (bs ! i)" and "notClickedByUs (bs ! i)" and "\<not> fst (canLike now (safetyCounters e))"
  shows "guardedLike now i (e, bs) = (e\<lparr> safetyCounters := checkResets now (safetyCounters e) \<rparr>, bs)"
  using assms by (simp add: guardedLike_def Let_def canLike_eq)

lemma guardedLike_allowed:
  assumes "isNotLiked (bs ! i)" and "notClickedByUs (bs ! i)" and "fst (canLike now (safetyCounters e))"
  shows "snd (guardedLike now i (e, bs)) = markLiked i bs \<and>
         events (fst (guardedLike now i (e, bs))) = events e @ [Slept, Clicked (LikeButton i)] \<and>
         totalPostsLiked (sessionStats (fst (guardedLike now i (e, bs)))) = totalPostsLiked (sessionStats e) + 1 \<and>
         safetyCounters (fst (guardedLike now i (e, bs))) = recordLike (checkResets now (safetyCounters e)) \<and>
         stored_safetyCounters (localStorage (fst (guardedLike now i (e, bs)))) =
           Some (recordLike (checkResets now (safetyCounters e)))"
  using assms
  by (simp add: guardedLike_def Let_def canLike_eq bumpLiked_def sl_saveToStorage_def)

text \<open>
  In \<open>BaseAutoSurfer\<close> and \<open>LinkedInAutoSurfer\<close> the like action is as claim C2 says: once
  a control is picked that is neither pressed nor already clicked, a refusal of
  \<open>canLike()\<close> leaves the page, the trace and the statistics alone; otherwise the control is
  marked, clicked, \<open>totalPostsLiked\<close> grows by one and the like is recorded.
\<close>

lemma base_li_likePost_guarded:
  assumes "pick = base_pickLikeButton \<and> likePost = base_likePost \<or>
           pick = li_pickLikeButton \<and> likePost = li_likePost"
    and "pick bs = Some i" and "isNotLiked (bs ! i)" and "notClickedByUs (bs ! i)"
  shows "(\<not> fst (canLike now (safetyCounters e)) \<longrightarrow>
            likePost now (e, bs) = (e\<lparr> safetyCounters := checkResets now (safetyCounters e) \<rparr>, bs)) \<and>
         (fst (canLike now (safetyCounters e)) \<longrightarrow>
            snd (likePost now (e, bs)) = markLiked i bs \<and>
            events (fst (likePost now (e, bs))) = events e @ [Slept, Clicked (LikeButton i)] \<and>
            totalPostsLiked (sessionStats (fst (likePost now (e, bs)))) = totalPostsLiked (sessionStats e) + 1 \<and>
            safetyCounters (fst (likePost now (e, bs))) = recordLike (checkResets now (safetyCounters e)))"
proof -
  from assms(1,2) have "likePost now (e, bs) = guardedLike now i (e, bs)"
    by (auto simp: base_likePost_def li_likePost_def)
  then show ?thesis
    using guardedLike_denied [OF assms(3,4)] guardedLike_allowed [OF assms(3,4)] by simp
qed

lemma fb_likePost_unguarded:
  assumes "base_pickLikeButton bs = Some i" and "isNotLiked (bs ! i)" and "notClickedByUs (bs ! i)"
  shows "snd (fb_likePost (e, bs)) = markLiked i bs \<and>
         events (fst (fb_likePost (e, bs))) = events e @ [Slept, Slept, Clicked (LikeButton i)] \<and>
         totalPostsLiked (sessionStats (fst (fb_likePost (e, bs)))) = totalPostsLiked (sessionStats e) + 1 \<and>
         safetyCounters (fst (fb_likePost (e, bs))) = safetyCounters e \<and>
         localStorage (fst (fb_likePost (e, bs))) = localStorage e"
  using assms by (simp add: fb_likePost_def Let_def bumpLiked_def)

text \<open>
  Claim C2 at the Facebook engine. With the hourly like counter at its cap of 30 inside the
  hour, \<open>canLike()\<close> answers false; \<open>FacebookAutoSurfer.likePost\<close> never asks: it marks the
  control, clicks it and counts the like, and the limiter's counters record nothing.
\<close>

theorem fb_likePost_ignores_limiter:
  "\<not> fst (canLike 1700000000001 capped_counters) \<and>
   base_pickLikeButton [plain_like_button] = Some 0 \<and>
   isNotLiked plain_like_button \<and> notClickedByUs plain_like_button \<and>
   events (fst (fb_likePost
       ((new_engine ''facebook'' base_default_settings 1700000000000)\<lparr> safetyCounters := capped_counters \<rparr>,
        [plain_like_button]))) = [Slept, Slept, Clicked (LikeButton 0)] \<and>
   snd (fb_likePost
       ((new_engine ''facebook'' base_default_settings 1700000000000)\<lparr> safetyCounters := capped_counters \<rparr>,
        [plain_like_button])) = [plain_like_button\<lparr> lb_surferLiked := Some ''true'' \<rparr>] \<and>
   totalPostsLiked (sessionStats (fst (fb_likePost
       ((new_engine ''facebook'' base_default_settings 1700000000000)\<lparr> safetyCounters := capped_counters \<rparr>,
        [plain_like_button])))) = 1 \<and>
   safetyCounters (fst (fb_likePost
       ((new_engine ''facebook'' base_default_settings 1700000000000)\<lparr> safetyCounters := capped_counters \<rparr>,
        [plain_like_button]))) = capped_counters"
proof -
  have c: "\<not> fst (canLike 1700000000001 capped_counters)"
    by (simp add: canLike_eq checkResets_def resetHourly_def resetDaily_def capped_counters_def
        hourMs_def dayMs_def)
  have i: "str_includes ''Like'' '':'' = False" by code_simp
  have p: "base_pickLikeButton [plain_like_button] = Some 0"
    by (simp add: base_pickLikeButton_def base_pick_step_def label_of_def plain_like_button_def
        below_def i Let_def)
  have l: "isNotLiked plain_like_button" "notClickedByUs plain_like_button"
    by (simp_all add: isNotLiked_def notClickedByUs_def truthy_def plain_like_button_def)
  have l': "isNotLiked ([plain_like_button] ! 0)" "notClickedByUs ([plain_like_button] ! 0)"
    using l by simp_all
  note F = fb_likePost_unguarded [OF p l',
      of "(new_engine ''facebook'' base_default_settings 1700000000000)\<lparr> safetyCounters := capped_counters \<rparr>"]
  show ?thesis
    using c p l F by (simp add: markLiked_def new_engine_def zero_stats_def)
qed

section \<open>The comment action\<close>

lemma log_fields [simp]:
  "events (log evs e) = events e @ evs"
  "templateGenerator (log evs e) = templateGenerator e"
  "sessionStats (log evs e) = sessionStats e"
  "safetyCounters (log evs e) = safetyCounters e"
  "duplicateDetector (log evs e) = duplicateDetector e"
  "localStorage (log evs e) = localStorage e"
  "platform (log evs e) = platform e"
  "settings (log evs e) = settings e"
  by (simp_all add: log_def)

lemma log_log [simp]: "log b (log a e) = log (a @ b) e"
  by (simp add: log_def)

lemma markCommented_raw [simp]:
  "nameTexts (markCommented p) = nameTexts p"
  "hiddenSpanTexts (markCommented p) = hiddenSpanTexts p"
  "dataUrn (markCommented p) = dataUrn p"
  "descriptionText (markCommented p) = descriptionText p"
  "surferEngaged (markCommented p) = surferEngaged p"
  "likeButtons (markCommented p) = likeButtons p"
  by (simp_all add: markCommented_def)

lemma markCommented_fields [simp]:
  "li_getAuthorName (markCommented p) = li_getAuthorName p"
  "li_getPostUrl (markCommented p) = li_getPostUrl p"
  "li_getPostContent (markCommented p) = li_getPostContent p"
  by (simp_all add: li_getAuthorName_def li_getPostUrl_def li_getPostContent_def getPostUrn_def
      cong: option.case_cong)

lemma li_addPositiveComment_no_submit:
  assumes "commentButton p = Some cb" and "\<not> truthy (cb_surferCommented cb)"
    and "li_findTextArea view = Some ta"
    and "generateComment rIndex rComma (Some (li_getAuthorName p)) (templateGenerator e) = Some reply"
    and "li_findSubmitButton ta view = None"
  shows "li_addPositiveComment view rIndex rComma (e, p) =
     (False,
      log [Clicked CommentButton, Slept, Clicked (clickTarget ta), Slept, Typed (ta_id ta) reply, Slept] e,
      markCommented p)"
  using assms by (simp add: li_addPositiveComment_def Let_def)

lemma base_addPositiveComment_no_submit:
  assumes "commentButton p = Some cb" and "\<not> truthy (cb_surferCommented cb)"
    and "base_findTextArea (cd_textAreas view) = Some ta"
    and "generateComment rIndex rComma (Some []) (templateGenerator e) = Some reply"
    and "base_findSubmitButton ta view = None"
  shows "base_addPositiveComment view rIndex rComma (e, p) =
     (False,
      log ([Clicked CommentButton, Slept] @
           (if platform e = ''linkedin'' \<and> cd_commentInput view then [Clicked CommentInput, Slept] else []) @
           [Clicked (clickTarget ta), Slept, Typed (ta_id ta) reply, Slept]) e,
      markCommented p)"
  using assms by (simp add: base_addPositiveComment_def Let_def)

lemma commentPost_after_failed_compose:
  assumes "fst (li_addPositiveComment view rIndex rComma
      (e\<lparr> safetyCounters := checkResets now (safetyCounters e) \<rparr>, p)) = False"
  shows "sessionStats (fst (li_commentPost now later view rIndex rComma (e, p))) = sessionStats e \<and>
         duplicateDetector (fst (li_commentPost now later view rIndex rComma (e, p))) = duplicateDetector e \<and>
         localStorage (fst (li_commentPost now later view rIndex rComma (e, p))) = localStorage e \<and>
         safetyCounters (fst (li_commentPost now later view rIndex rComma (e, p))) =
           checkResets now (safetyCounters e)"
proof -
  let ?e = "e\<lparr> safetyCounters := checkResets now (safetyCounters e) \<rparr>"
  obtain e' p' where r: "li_addPositiveComment view rIndex rComma (?e, p) = (False, e', p')"
    using assms by (cases "li_addPositiveComment view rIndex rComma (?e, p)") auto
  have k: "sessionStats e' = sessionStats e \<and> duplicateDetector e' = duplicateDetector e \<and>
      localStorage e' = localStorage e \<and> safetyCounters e' = checkResets now (safetyCounters e)"
    using r
    by (auto simp: li_addPositiveComment_def Let_def split: option.splits if_splits)
  show ?thesis
    using r k
    by (simp add: li_commentPost_def li_composeAndRecord_def canComment_eq Let_def)
qed

lemma base_commentPost_after_failed_compose:
  assumes "fst (base_addPositiveComment view rIndex rComma
      (e\<lparr> safetyCounters := checkResets now (safetyCounters e) \<rparr>, p)) = False"
  shows "sessionStats (fst (base_commentPost h now later view rIndex rComma (e, p))) = sessionStats e \<and>
         duplicateDetector (fst (base_commentPost h now later view rIndex rComma (e, p))) = duplicateDetector e \<and>
         localStorage (fst (base_commentPost h now later view rIndex rComma (e, p))) = localStorage e \<and>
         safetyCounters (fst (base_commentPost h now later view rIndex rComma (e, p))) =
           checkResets now (safetyCounters e)"
proof -
  let ?e = "e\<lparr> safetyCounters := checkResets now (safetyCounters e) \<rparr>"
  obtain e' p' where r: "base_addPositiveComment view rIndex rComma (?e, p) = (False, e', p')"
    using assms by (cases "base_addPositiveComment view rIndex rComma (?e, p)") auto
  have k: "sessionStats e' = sessionStats e \<and> duplicateDetector e' = duplicateDetector e \<and>
      localStorage e' = localStorage e \<and> safetyCounters e' = checkResets now (safetyCounters e)"
    using r
    by (auto simp: base_addPositiveComment_def Let_def split: option.splits if_splits)
  show ?thesis
    using r k
    by (simp add: base_commentPost_def canComment_eq Let_def)
qed

lemma example_facts:
  "li_getAuthorName bare_post = ''Unknown''"
  "li_getPostUrl bare_post = Some ''linkedin://post/urn:li:activity:2''"
  "li_findTextArea view_without_submit = Some editable_area"
  "li_findTextArea view_with_submit = Some area_near_submit"
  "base_findTextArea (cd_textAreas base_view_without_submit) = Some base_editable_area"
  "li_findSubmitButton editable_area view_without_submit = None"
  "base_findSubmitButton base_editable_area base_view_without_submit = None"
  "li_findSubmitButton area_near_submit view_with_submit = Some \<lparr> sb_id = 9, sb_disabled = False \<rparr>"
  "clickTarget editable_area = TextArea 7"
  "ta_id editable_area = 7"
  "commentButton bare_post = Some \<lparr> cb_surferCommented = None \<rparr>"
  "markCommented bare_post = bare_post\<lparr> commentButton := Some \<lparr> cb_surferCommented = Some ''true'' \<rparr> \<rparr>"
  "clickTarget area_near_submit = TextArea 7"
  "ta_id area_near_submit = 7"
  "clickTarget base_editable_area = TextArea 7"
  "ta_id base_editable_area = 7"
  by (simp_all add: li_getAuthorName_def li_getPostUrl_def getPostUrn_def bare_post_def
      li_findTextArea_def view_without_submit_def view_with_submit_def editable_area_def
      area_near_submit_def base_editable_area_def base_view_without_submit_def
      none8_def none5_def post8_def
      li_isElementVisible_def li_isElementEditable_def base_isVisible_def base_isEditable_def
      li_findSubmitButton_def base_findSubmitButton_def clickTarget_def markCommented_def)

lemma example_comment:
  "generateComment 0 0 (Some ''Unknown'') new_generator = Some ''Great insight!''"
  "generateComment 0 0 (Some []) new_generator = Some ''Great insight!''"
  by code_simp+

text \<open>
  Claim C4 as stated fails. In the LinkedIn engine, on a post whose comment box shows an
  editable input and no submit control, \<open>addPositiveComment\<close> returns false after it has
  marked the comment control \<open>data-surfer-commented\<close>, clicked the control and the input,
  and typed the comment: the mark and the typed text stay.
\<close>

theorem addPositiveComment_failure_leaves_effects:
  "li_findSubmitButton editable_area view_without_submit = None \<and>
   fst (li_addPositiveComment view_without_submit 0 0
          (new_engine ''linkedin'' li_default_settings 1700000000000, bare_post)) = False \<and>
   commentButton bare_post = Some \<lparr> cb_surferCommented = None \<rparr> \<and>
   commentButton (snd (snd (li_addPositiveComment view_without_submit 0 0
          (new_engine ''linkedin'' li_default_settings 1700000000000, bare_post))))
     = Some \<lparr> cb_surferCommented = Some ''true'' \<rparr> \<and>
   events (new_engine ''linkedin'' li_default_settings 1700000000000) = [] \<and>
   events (fst (snd (li_addPositiveComment view_without_submit 0 0
          (new_engine ''linkedin'' li_default_settings 1700000000000, bare_post))))
     = [Clicked CommentButton, Slept, Clicked (TextArea 7), Slept, Typed 7 ''Great insight!'', Slept] \<and>
   snd (li_addPositiveComment view_without_submit 0 0
          (new_engine ''linkedin'' li_default_settings 1700000000000, bare_post))
     \<noteq> (new_engine ''linkedin'' li_default_settings 1700000000000, bare_post)"
proof -
  let ?e = "new_engine ''linkedin'' li_default_settings 1700000000000"
  have g: "generateComment 0 0 (Some (li_getAuthorName bare_post)) (templateGenerator ?e) = Some ''Great insight!''"
    by (simp add: example_facts example_comment new_engine_def)
  have n: "\<not> truthy (cb_surferCommented \<lparr> cb_surferCommented = None \<rparr>)"
    by (simp add: truthy_def)
  note R = li_addPositiveComment_no_submit [OF example_facts(11) n example_facts(3) g example_facts(6)]
  have ev: "events ?e = []" by (simp add: new_engine_def)
  have d: "markCommented bare_post \<noteq> bare_post"
  proof
    assume "markCommented bare_post = bare_post"
    then have "commentButton (markCommented bare_post) = commentButton bare_post" by simp
    then show False by (simp add: example_facts)
  qed
  show ?thesis
    unfolding R using ev d by (simp add: example_facts)
qed

text \<open>
  Claim C4, amended. When \<open>addPositiveComment\<close> has typed its comment and finds no submit
  control, it returns false; \<open>totalComments\<close> and the rest of the session statistics, the
  Duplicate Detector and the persisted stores are unchanged, and the Safety Limiter records
  nothing (\<open>commentPost\<close> has only reconciled its windows). The comment control stays
  marked \<open>data-surfer-commented\<close>, and the clicks and the typed reply have happened. This
  holds in \<open>BaseAutoSurfer\<close> and in \<open>LinkedInAutoSurfer\<close>.
\<close>

theorem addPositiveComment_without_submit_control:
  assumes "commentButton p = Some cb" and "\<not> truthy (cb_surferCommented cb)"
  shows
    "(li_findTextArea view = Some ta \<and>
      generateComment rIndex rComma (Some (li_getAuthorName p)) (templateGenerator e) = Some reply \<and>
      li_findSubmitButton ta view = None \<longrightarrow>
        li_addPositiveComment view rIndex rComma (e, p) =
          (False,
           log [Clicked CommentButton, Slept, Clicked (clickTarget ta), Slept, Typed (ta_id ta) reply, Slept] e,
           markCommented p) \<and>
        sessionStats (fst (li_commentPost now later view rIndex rComma (e, p))) = sessionStats e \<and>
        duplicateDetector (fst (li_commentPost now later view rIndex rComma (e, p))) = duplicateDetector e \<and>
        localStorage (fst (li_commentPost now later view rIndex rComma (e, p))) = localStorage e \<and>
        safetyCounters (fst (li_commentPost now later view rIndex rComma (e, p))) =
          checkResets now (safetyCounters e)) \<and>
     (base_findTextArea (cd_textAreas view) = Some ta \<and>
      generateComment rIndex rComma (Some []) (templateGenerator e) = Some reply \<and>
      base_findSubmitButton ta view = None \<longrightarrow>
        base_addPositiveComment view rIndex rComma (e, p) =
          (False,
           log ([Clicked CommentButton, Slept] @
                (if platform e = ''linkedin'' \<and> cd_commentInput view then [Clicked CommentInput, Slept] else []) @
                [Clicked (clickTarget ta), Slept, Typed (ta_id ta) reply, Slept]) e,
           markCommented p) \<and>
        sessionStats (fst (base_commentPost h now later view rIndex rComma (e, p))) = sessionStats e \<and>
        duplicateDetector (fst (base_commentPost h now later view rIndex rComma (e, p))) = duplicateDetector e \<and>
        localStorage (fst (base_commentPost h now later view rIndex rComma (e, p))) = localStorage e \<and>
        safetyCounters (fst (base_commentPost h now later view rIndex rComma (e, p))) =
          checkResets now (safetyCounters e))"
proof (intro conjI impI)
  let ?e = "e\<lparr> safetyCounters := checkResets now (safetyCounters e) \<rparr>"
  assume a: "li_findTextArea view = Some ta \<and>
      generateComment rIndex rComma (Some (li_getAuthorName p)) (templateGenerator e) = Some reply \<and>
      li_findSubmitButton ta view = None"
  then have g: "generateComment rIndex rComma (Some (li_getAuthorName p)) (templateGenerator ?e) = Some reply"
    by simp
  from a show "li_addPositiveComment view rIndex rComma (e, p) =
          (False,
           log [Clicked CommentButton, Slept, Clicked (clickTarget ta), Slept, Typed (ta_id ta) reply, Slept] e,
           markCommented p)"
    using li_addPositiveComment_no_submit [OF assms, of "view" ta rIndex rComma e reply] by blast
  from a g have f: "fst (li_addPositiveComment view rIndex rComma (?e, p)) = False"
    using li_addPositiveComment_no_submit [OF assms, of "view" ta rIndex rComma "?e" reply] by simp
  note c = commentPost_after_failed_compose [OF f, of later]
  from c show "sessionStats (fst (li_commentPost now later view rIndex rComma (e, p))) = sessionStats e" by blast
  from c show "duplicateDetector (fst (li_commentPost now later view rIndex rComma (e, p))) = duplicateDetector e" by blast
  from c show "localStorage (fst (li_commentPost now later view rIndex rComma (e, p))) = localStorage e" by blast
  from c show "safetyCounters (fst (li_commentPost now later view rIndex rComma (e, p))) =
          checkResets now (safetyCounters e)" by blast
next
  let ?e = "e\<lparr> safetyCounters := checkResets now (safetyCounters e) \<rparr>"
  assume a: "base_findTextArea (cd_textAreas view) = Some ta \<and>
      generateComment rIndex rComma (Some []) (templateGenerator e) = Some reply \<and>
      base_findSubmitButton ta view = None"
  then have g: "generateComment rIndex rComma (Some []) (templateGenerator ?e) = Some reply"
    by simp
  from a show "base_addPositiveComment view rIndex rComma (e, p) =
          (False,
           log ([Clicked CommentButton, Slept] @
                (if platform e = ''linkedin'' \<and> cd_commentInput view then [Clicked CommentInput, Slept] else []) @
                [Clicked (clickTarget ta), Slept, Typed (ta_id ta) reply, Slept]) e,
           markCommented p)"
    using base_addPositiveComment_no_submit [OF assms, of "view" ta rIndex rComma e reply] by blast
  from a g have f: "fst (base_addPositiveComment view rIndex rComma (?e, p)) = False"
    using base_addPositiveComment_no_submit [OF assms, of "view" ta rIndex rComma "?e" reply] by simp
  note c = base_commentPost_after_failed_compose [OF f, of h later]
  from c show "sessionStats (fst (base_commentPost h now later view rIndex rComma (e, p))) = sessionStats e" by blast
  from c show "duplicateDetector (fst (base_commentPost h now later view rIndex rComma (e, p))) = duplicateDetector e" by blast
  from c show "localStorage (fst (base_commentPost h now later view rIndex rComma (e, p))) = localStorage e" by blast
  from c show "safetyCounters (fst (base_commentPost h now later view rIndex rComma (e, p))) =
          checkResets now (safetyCounters e)" by blast
qed

theorem addPositiveComment_without_submit_control_witness:
  "fst (li_addPositiveComment view_without_submit 0 0
         (new_engine ''linkedin'' li_default_settings 1700000000000, bare_post)) = False \<and>
   totalComments (sessionStats (fst (li_commentPost 1700000000001 1700000000002 view_without_submit 0 0
         (new_engine ''linkedin'' li_default_settings 1700000000000, bare_post)))) = 0 \<and>
   duplicateDetector (fst (li_commentPost 1700000000001 1700000000002 view_without_submit 0 0
         (new_engine ''linkedin'' li_default_settings 1700000000000, bare_post))) = new_detector \<and>
   fst (base_addPositiveComment base_view_without_submit 0 0
         (new_engine ''twitter'' base_default_settings 1700000000000, bare_post)) = False \<and>
   totalComments (sessionStats (fst (base_commentPost base_hooks 1700000000001 1700000000002
         base_view_without_submit 0 0
         (new_engine ''twitter'' base_default_settings 1700000000000, bare_post)))) = 0"
proof -
  let ?l = "new_engine ''linkedin'' li_default_settings 1700000000000"
  let ?b = "new_engine ''twitter'' base_default_settings 1700000000000"
  have n: "\<not> truthy (cb_surferCommented \<lparr> cb_surferCommented = None \<rparr>)"
    by (simp add: truthy_def)
  have gl: "generateComment 0 0 (Some (li_getAuthorName bare_post)) (templateGenerator ?l) = Some ''Great insight!''"
    by (simp add: example_facts example_comment new_engine_def)
  have gb: "generateComment 0 0 (Some []) (templateGenerator ?b) = Some ''Great insight!''"
    by (simp add: example_comment new_engine_def)
  note L = addPositiveComment_without_submit_control [OF example_facts(11) n,
      of view_without_submit editable_area 0 0 "?l" "''Great insight!''" 1700000000001 1700000000002 base_hooks,
      THEN conjunct1, rule_format, OF conjI [OF example_facts(3) conjI [OF gl example_facts(6)]]]
  note B = addPositiveComment_without_submit_control [OF example_facts(11) n,
      of base_view_without_submit base_editable_area 0 0 "?b" "''Great insight!''" 1700000000001 1700000000002 base_hooks,
      THEN conjunct2, rule_format, OF conjI [OF example_facts(5) conjI [OF gb example_facts(7)]]]
  have z: "sessionStats ?l = zero_stats" "duplicateDetector ?l = new_detector" "sessionStats ?b = zero_stats"
    by (simp_all add: new_engine_def)
  show ?thesis
    using L B z by (simp add: zero_stats_def)
qed

lemma li_addPositiveComment_submitted:
  assumes "commentButton p = Some cb" and "\<not> truthy (cb_surferCommented cb)"
    and "li_findTextArea view = Some ta"
    and "generateComment rIndex rComma (Some (li_getAuthorName p)) (templateGenerator e) = Some reply"
    and "li_findSubmitButton ta view = Some sb"
  shows "li_addPositiveComment view rIndex rComma (e, p) =
     (True,
      log [Clicked CommentButton, Slept, Clicked (clickTarget ta), Slept, Typed (ta_id ta) reply, Slept,
           Clicked (SubmitButton (sb_id sb))] e,
      markCommented p)"
  using assms by (simp add: li_addPositiveComment_def Let_def)

lemma recordCommented_fields:
  "events (recordCommented later u a c e) = events e"
  "totalComments (sessionStats (recordCommented later u a c e)) = totalComments (sessionStats e) + 1"
  "safetyCounters (recordCommented later u a c e) = recordComment (safetyCounters e)"
  by (simp_all add: recordCommented_def Let_def bumpComments_def sl_saveToStorage_def)

lemma li_duplicateSkip_unknown:
  "li_getAuthorName p = ''Unknown'' \<Longrightarrow>
     li_duplicateSkip now d p =
       (hasEngagedUrl d (li_getPostUrl p) \<or> hasEngagedContent d (Some (li_getPostContent p)))"
  by (simp add: li_duplicateSkip_def Let_def)

lemma li_duplicateSkip_known:
  "li_getAuthorName p \<noteq> ''Unknown'' \<Longrightarrow>
     li_duplicateSkip now d p =
       (hasEngagedUrl d (li_getPostUrl p) \<or> hasEngagedAuthor now d (Some (li_getAuthorName p)) 24 \<or>
        hasEngagedContent d (Some (li_getPostContent p)))"
  by (simp add: li_duplicateSkip_def Let_def)

lemma hasEngaged_other_authors:
  "hasEngagedUrl (d\<lparr> commentedAuthors := as \<rparr>) u = hasEngagedUrl d u"
  "hasEngagedContent (d\<lparr> commentedAuthors := as \<rparr>) c = hasEngagedContent d c"
  by (simp_all add: hasEngagedUrl_def hasEngagedContent_def cong: option.case_cong)

text \<open>
  Claim C10. In the LinkedIn engine's comment action, when \<open>getAuthorName\<close> returns its
  sentinel \<open>'Unknown'\<close>, the duplicate checks come down to the URL check and the content
  check: the outcome is the same whatever the author store holds. So with the limiter
  willing and the URL and the content new, the comment is composed, also when the name
  \<open>'Unknown'\<close> was engaged within the last 24 hours; with the URL or the content already
  engaged, nothing is composed.
\<close>

theorem li_unknown_author_bypasses_cooldown:
  assumes "li_getAuthorName p = ''Unknown''"
  shows
    "li_duplicateSkip now d p =
       (hasEngagedUrl d (li_getPostUrl p) \<or> hasEngagedContent d (Some (li_getPostContent p))) \<and>
     (\<forall>as. li_duplicateSkip now (d\<lparr> commentedAuthors := as \<rparr>) p = li_duplicateSkip now d p) \<and>
     (fst (canComment now (safetyCounters e)) \<and>
      \<not> hasEngagedUrl (duplicateDetector e) (li_getPostUrl p) \<and>
      \<not> hasEngagedContent (duplicateDetector e) (Some (li_getPostContent p)) \<longrightarrow>
        li_commentPost now later view rIndex rComma (e, p) =
          li_composeAndRecord later view rIndex rComma
            (e\<lparr> safetyCounters := checkResets now (safetyCounters e) \<rparr>, p)) \<and>
     (hasEngagedUrl (duplicateDetector e) (li_getPostUrl p) \<or>
      hasEngagedContent (duplicateDetector e) (Some (li_getPostContent p)) \<longrightarrow>
        li_commentPost now later view rIndex rComma (e, p) =
          (e\<lparr> safetyCounters := checkResets now (safetyCounters e) \<rparr>, p))"
proof -
  note s = li_duplicateSkip_unknown [OF assms]
  have 1: "li_duplicateSkip now d p =
       (hasEngagedUrl d (li_getPostUrl p) \<or> hasEngagedContent d (Some (li_getPostContent p)))"
    by (rule s)
  have 2: "\<forall>as. li_duplicateSkip now (d\<lparr> commentedAuthors := as \<rparr>) p = li_duplicateSkip now d p"
    by (simp add: s hasEngaged_other_authors)
  have 3: "fst (canComment now (safetyCounters e)) \<and>
      \<not> hasEngagedUrl (duplicateDetector e) (li_getPostUrl p) \<and>
      \<not> hasEngagedContent (duplicateDetector e) (Some (li_getPostContent p)) \<longrightarrow>
        li_commentPost now later view rIndex rComma (e, p) =
          li_composeAndRecord later view rIndex rComma
            (e\<lparr> safetyCounters := checkResets now (safetyCounters e) \<rparr>, p)"
    by (simp add: li_commentPost_def Let_def s canComment_eq)
  have 4: "hasEngagedUrl (duplicateDetector e) (li_getPostUrl p) \<or>
      hasEngagedContent (duplicateDetector e) (Some (li_getPostContent p)) \<longrightarrow>
        li_commentPost now later view rIndex rComma (e, p) =
          (e\<lparr> safetyCounters := checkResets now (safetyCounters e) \<rparr>, p)"
    by (simp add: li_commentPost_def Let_def s canComment_eq)
  from 1 2 3 4 show ?thesis by blast
qed

theorem li_unknown_author_bypasses_cooldown_witness:
  "li_getAuthorName bare_post = ''Unknown'' \<and>
   hasEngagedAuthor 1700003600000 (duplicateDetector engine_after_unknown) (Some ''Unknown'') 24 \<and>
   events (fst (li_commentPost 1700003600000 1700003660000 view_with_submit 0 0
       (engine_after_unknown, bare_post))) =
     [Clicked CommentButton, Slept, Clicked (TextArea 7), Slept, Typed 7 ''Great insight!'', Slept,
      Clicked (SubmitButton 9)] \<and>
   totalComments (sessionStats (fst (li_commentPost 1700003600000 1700003660000 view_with_submit 0 0
       (engine_after_unknown, bare_post)))) = 1"
proof -
  let ?e = "engine_after_unknown"
  let ?e' = "?e\<lparr> safetyCounters := checkResets 1700003600000 (safetyCounters ?e) \<rparr>"
  have a: "hasEngagedAuthor 1700003600000 (duplicateDetector ?e) (Some ''Unknown'') 24"
    by (simp add: hasEngagedAuthor_def engine_after_unknown_def Let_def)
  have c: "fst (canComment 1700003600000 (safetyCounters ?e))"
    by (simp add: canComment_eq engine_after_unknown_def new_engine_def initial_counters_def
        checkResets_def resetHourly_def resetDaily_def hourMs_def dayMs_def)
  have u: "\<not> hasEngagedUrl (duplicateDetector ?e) (li_getPostUrl bare_post)"
    by (simp add: hasEngagedUrl_def example_facts engine_after_unknown_def)
  have h: "\<not> hasEngagedContent (duplicateDetector ?e) (Some (li_getPostContent bare_post))"
    by (simp add: hasEngagedContent_def engine_after_unknown_def)
  note T = li_unknown_author_bypasses_cooldown [OF example_facts(1),
      of 1700003600000 "duplicateDetector ?e" ?e 1700003660000 view_with_submit 0 0]
  from T c u h
  have R: "li_commentPost 1700003600000 1700003660000 view_with_submit 0 0 (?e, bare_post) =
      li_composeAndRecord 1700003660000 view_with_submit 0 0 (?e', bare_post)"
    by blast
  have n: "\<not> truthy (cb_surferCommented \<lparr> cb_surferCommented = None \<rparr>)"
    by (simp add: truthy_def)
  have g: "generateComment 0 0 (Some (li_getAuthorName bare_post)) (templateGenerator ?e') = Some ''Great insight!''"
    by (simp add: example_facts example_comment engine_after_unknown_def new_engine_def)
  note A = li_addPositiveComment_submitted [OF example_facts(11) n example_facts(4) g example_facts(8)]
  have ev: "events ?e' = []" and st: "totalComments (sessionStats ?e') = 0"
    by (simp_all add: engine_after_unknown_def new_engine_def zero_stats_def)
  show ?thesis
    unfolding R li_composeAndRecord_def Let_def A
    using a ev st by (simp add: recordCommented_fields example_facts)
qed

section \<open>The LinkedIn cycle and the skip filter\<close>

lemma shouldSkipPost_old:
  assumes "timeFilterEnabled s = Some True" and "maxPostAge s = Some m"
    and "ageHours (getPostAge p) = Some h" and "h > of_int m"
  shows "shouldSkipPost s p"
  using assms by (simp add: shouldSkipPost_def Let_def)

lemma li_engage_skip:
  "shouldSkipPost (settings e) (page ! i) \<Longrightarrow>
     li_engage env i (e, page) = (scheduleNextCycle e, markEngaged i page)"
  by (simp add: li_engage_def Let_def)

lemma li_engage_length: "length (snd (li_engage env j ep)) = length (snd ep)"
  by (simp add: li_engage_def Let_def markEngaged_def)

lemma li_engage_other:
  "i \<noteq> j \<Longrightarrow> snd (li_engage env j ep) ! i = snd ep ! i"
  by (simp add: li_engage_def Let_def markEngaged_def)

lemma visibleUnengaged_iff:
  "j \<in> set (visibleUnengaged page) \<longleftrightarrow>
     j < length page \<and> inViewport (page ! j) \<and> \<not> truthy (surferEngaged (page ! j))"
  by (auto simp: visibleUnengaged_def in_set_enumerate_eq image_iff)

lemma markEngaged_nth:
  "i < length page \<Longrightarrow> surferEngaged (markEngaged i page ! i) = Some ''true''"
  by (simp add: markEngaged_def)

lemma markEngaged_not_scanned: "i \<notin> set (visibleUnengaged (markEngaged i page))"
  by (auto simp: visibleUnengaged_iff markEngaged_def truthy_def)

lemma sameButViewport_refl: "sameButViewport p p"
  by (simp add: sameButViewport_def)

lemma sameButViewport_trans:
  "sameButViewport p q \<Longrightarrow> sameButViewport q r \<Longrightarrow> sameButViewport p r"
  unfolding sameButViewport_def
proof -
  assume a: "q = p\<lparr> inViewport := inViewport q \<rparr>" and b: "r = q\<lparr> inViewport := inViewport r \<rparr>"
  have "r = (p\<lparr> inViewport := inViewport q \<rparr>)\<lparr> inViewport := inViewport r \<rparr>"
    using b by (subst (asm) a) simp
  then show "r = p\<lparr> inViewport := inViewport r \<rparr>" by simp
qed

lemma sameButViewport_engaged:
  "sameButViewport p q \<Longrightarrow> surferEngaged q = surferEngaged p"
  unfolding sameButViewport_def by (erule ssubst) simp

lemma applyScroll_nth:
  "i < length page \<Longrightarrow>
     applyScroll r page ! i =
       (if i < length (sr_viewport r) then (page ! i)\<lparr> inViewport := sr_viewport r ! i \<rparr> else page ! i)"
  by (simp add: applyScroll_def nth_append nth_enumerate_eq)

lemma applyScroll_same:
  "i < length page \<Longrightarrow> i < length (applyScroll r page) \<and> sameButViewport (page ! i) (applyScroll r page ! i)"
  by (simp add: applyScroll_nth sameButViewport_def) (simp add: applyScroll_def)

lemma smartScroll_same:
  "i < length page \<Longrightarrow>
     i < length (snd (snd (smartScrollUntilNewPost n rs (e, page)))) \<and>
     sameButViewport (page ! i) (snd (snd (smartScrollUntilNewPost n rs (e, page))) ! i)"
proof (induction n rs "(e, page)" arbitrary: e page rule: smartScrollUntilNewPost.induct)
  case (1 rs)
  then show ?case by (simp add: sameButViewport_refl)
next
  case (2 n)
  then show ?case by (simp add: sameButViewport_refl)
next
  case (3 n r rs)
  note a = applyScroll_same [OF "3.prems", of r]
  show ?case
  proof (cases "sr_atBottom r")
    case True
    with "3.prems" show ?thesis by (simp add: sameButViewport_refl)
  next
    case False
    show ?thesis
    proof (cases "visibleUnengaged (applyScroll r page) \<noteq> []")
      case True
      with False a show ?thesis by (simp add: Let_def)
    next
      case v: False
      from a have l: "i < length (applyScroll r page)" by blast
      have ih: "i < length (snd (snd (smartScrollUntilNewPost n rs
                    (log [ScrolledBy, Slept] e, applyScroll r page)))) \<and>
          sameButViewport (applyScroll r page ! i)
            (snd (snd (smartScrollUntilNewPost n rs (log [ScrolledBy, Slept] e, applyScroll r page))) ! i)"
        using "3.hyps" False v l by simp
      from ih a False v show ?thesis
        by (auto simp: Let_def intro: sameButViewport_trans)
    qed
  qed
qed

lemma li_cycle_keeps_engaged:
  assumes "i < length page" and "truthy (surferEngaged (page ! i))"
  shows "i < length (snd (li_engagementCycle env (e, page))) \<and>
         sameButViewport (page ! i) (snd (li_engagementCycle env (e, page)) ! i)"
proof (cases "isActive e")
  case False
  with assms show ?thesis by (simp add: li_engagementCycle_def sameButViewport_refl)
next
  case active: True
  show ?thesis
  proof (cases "visibleUnengaged page")
    case (Cons j rest)
    then have "j \<in> set (visibleUnengaged page)" by simp
    with assms(2) have "i \<noteq> j" by (auto simp: visibleUnengaged_iff)
    with active Cons assms(1) show ?thesis
      by (simp add: li_engagementCycle_def li_engage_length li_engage_other sameButViewport_refl)
  next
    case Nil
    let ?r = "smartScrollUntilNewPost 10 (ce_scrolls env) (e, page)"
    let ?e = "fst (snd ?r)" and ?page = "snd (snd ?r)"
    note s = smartScroll_same [OF assms(1), of 10 "ce_scrolls env" e]
    then have l: "i < length ?page" and sb: "sameButViewport (page ! i) (?page ! i)" by blast+
    from sb assms(2) have eng: "truthy (surferEngaged (?page ! i))"
      by (simp add: sameButViewport_engaged)
    show ?thesis
    proof (cases "fst ?r")
      case False
      with active Nil l sb show ?thesis by (simp add: li_engagementCycle_def Let_def)
    next
      case found: True
      show ?thesis
      proof (cases "visibleUnengaged ?page")
        case Nil2: Nil
        with active Nil found l sb show ?thesis by (simp add: li_engagementCycle_def Let_def)
      next
        case (Cons j rest)
        then have "j \<in> set (visibleUnengaged ?page)" by simp
        with eng have "i \<noteq> j" by (auto simp: visibleUnengaged_iff)
        with active Nil found Cons l sb show ?thesis
          by (simp add: li_engagementCycle_def Let_def li_engage_length li_engage_other)
      qed
    qed
  qed
qed

lemma li_cycles_keep_engaged:
  "i < length page \<Longrightarrow> truthy (surferEngaged (page ! i)) \<Longrightarrow>
     i < length (snd (li_cycles envs (e, page))) \<and>
     sameButViewport (page ! i) (snd (li_cycles envs (e, page)) ! i)"
proof (induction envs arbitrary: e page)
  case Nil
  then show ?case by (simp add: sameButViewport_refl)
next
  case (Cons env envs)
  obtain e' page' where r: "li_engagementCycle env (e, page) = (e', page')"
    by (cases "li_engagementCycle env (e, page)")
  from li_cycle_keeps_engaged [OF Cons.prems, of env e] r
  have l: "i < length page'" and sb: "sameButViewport (page ! i) (page' ! i)" by simp_all
  from sb Cons.prems(2) have "truthy (surferEngaged (page' ! i))"
    by (simp add: sameButViewport_engaged)
  from Cons.IH [OF l this, of e'] sb r show ?case
    by (auto intro: sameButViewport_trans)
qed

text \<open>
  Claim C6. A LinkedIn post whose age indicator parses to 96 hours is skippable when
  \<open>timeFilterEnabled\<close> is true and \<open>maxPostAge\<close> is 72. When the first visible unengaged
  post is skippable, the cycle does two things only: it sets \<open>data-surfer-engaged\<close> on the
  post and schedules the next cycle; the trace, the statistics, the limiter and the
  duplicate store are as before, so no see-more, like or comment was attempted. The
  marked post is outside every later scan, and after any number of further cycles it is
  as the skip left it (but for its place in the viewport).
\<close>

theorem li_old_post_skipped_never_revisited:
  "(timeFilterEnabled s = Some True \<and> maxPostAge s = Some 72 \<and> ageHours (getPostAge p) = Some 96 \<longrightarrow>
      shouldSkipPost s p) \<and>
   (shouldSkipPost (settings e) (page ! i) \<longrightarrow>
      li_engage env i (e, page) = (scheduleNextCycle e, markEngaged i page)) \<and>
   (isActive e \<and> visibleUnengaged page = i # rest \<and> shouldSkipPost (settings e) (page ! i) \<longrightarrow>
      li_engagementCycle env (e, page) = (e\<lparr> timerPending := True \<rparr>, markEngaged i page) \<and>
      surferEngaged (markEngaged i page ! i) = Some ''true'' \<and>
      i \<notin> set (visibleUnengaged (markEngaged i page)) \<and>
      (\<forall>envs. i < length (snd (li_cycles envs (li_engagementCycle env (e, page)))) \<and>
              sameButViewport (markEngaged i page ! i)
                (snd (li_cycles envs (li_engagementCycle env (e, page))) ! i)))"
proof (intro conjI impI allI)
  assume "timeFilterEnabled s = Some True \<and> maxPostAge s = Some 72 \<and> ageHours (getPostAge p) = Some 96"
  then show "shouldSkipPost s p"
    using shouldSkipPost_old [of s 72 p 96] by simp
next
  assume "shouldSkipPost (settings e) (page ! i)"
  then show "li_engage env i (e, page) = (scheduleNextCycle e, markEngaged i page)"
    by (rule li_engage_skip)
next
  assume a: "isActive e \<and> visibleUnengaged page = i # rest \<and> shouldSkipPost (settings e) (page ! i)"
  then have "i \<in> set (visibleUnengaged page)" by simp
  then have l: "i < length page" by (simp add: visibleUnengaged_iff)
  from a show c: "li_engagementCycle env (e, page) = (e\<lparr> timerPending := True \<rparr>, markEngaged i page)"
    by (simp add: li_engagementCycle_def li_engage_skip scheduleNextCycle_def)
  from l show m: "surferEngaged (markEngaged i page ! i) = Some ''true''"
    by (rule markEngaged_nth)
  show "i \<notin> set (visibleUnengaged (markEngaged i page))"
    by (rule markEngaged_not_scanned)
  fix envs
  from l have l': "i < length (markEngaged i page)" by (simp add: markEngaged_def)
  from m have t: "truthy (surferEngaged (markEngaged i page ! i))" by (simp add: truthy_def)
  note k = li_cycles_keep_engaged [OF l' t, of envs "e\<lparr> timerPending := True \<rparr>"]
  from k show "i < length (snd (li_cycles envs (li_engagementCycle env (e, page))))"
    unfolding c by blast
  from k show "sameButViewport (markEngaged i page ! i)
                (snd (li_cycles envs (li_engagementCycle env (e, page))) ! i)"
    unfolding c by blast
qed

lemma old_post_facts:
  "ageHours (getPostAge old_post) = Some 96"
  "inViewport old_post" "\<not> truthy (surferEngaged old_post)"
  "inViewport bare_post" "\<not> truthy (surferEngaged bare_post)"
  by code_simp+

theorem li_old_post_skipped_never_revisited_witness:
  "shouldSkipPost (settings running_engine) old_post \<and>
   li_engagementCycle example_env (running_engine, [old_post, bare_post]) =
     (running_engine\<lparr> timerPending := True \<rparr>, [old_post\<lparr> surferEngaged := Some ''true'' \<rparr>, bare_post]) \<and>
   events (fst (li_engagementCycle example_env (running_engine, [old_post, bare_post]))) = [] \<and>
   sameButViewport (old_post\<lparr> surferEngaged := Some ''true'' \<rparr>)
     (snd (li_cycles [example_env, example_env]
        (li_engagementCycle example_env (running_engine, [old_post, bare_post]))) ! 0)"
proof -
  let ?page = "[old_post, bare_post]"
  have s: "timeFilterEnabled (settings running_engine) = Some True \<and>
      maxPostAge (settings running_engine) = Some 72 \<and> ageHours (getPostAge old_post) = Some 96"
    by (simp add: running_engine_def li_default_settings_def base_default_settings_def old_post_facts)
  have v: "visibleUnengaged ?page = 0 # [1]"
    by (simp add: visibleUnengaged_def old_post_facts)
  have act: "isActive running_engine" and ev: "events running_engine = []"
    by (simp_all add: running_engine_def new_engine_def)
  note T = li_old_post_skipped_never_revisited [of "settings running_engine" old_post
      running_engine ?page 0 example_env "[1]"]
  from T s have k: "shouldSkipPost (settings running_engine) old_post" by blast
  then have k': "shouldSkipPost (settings running_engine) (?page ! 0)" by simp
  from T act v k'
  have c: "li_engagementCycle example_env (running_engine, ?page) =
      (running_engine\<lparr> timerPending := True \<rparr>, markEngaged 0 ?page)"
    and r: "\<forall>envs. sameButViewport (markEngaged 0 ?page ! 0)
                (snd (li_cycles envs (li_engagementCycle example_env (running_engine, ?page))) ! 0)"
    by blast+
  have m: "markEngaged 0 ?page = [old_post\<lparr> surferEngaged := Some ''true'' \<rparr>, bare_post]"
    by (simp add: markEngaged_def)
  from r have r': "sameButViewport (markEngaged 0 ?page ! 0)
      (snd (li_cycles [example_env, example_env] (li_engagementCycle example_env (running_engine, ?page))) ! 0)"
    by (rule spec)
  show ?thesis
    using k c r' ev unfolding m by simp
qed

end
